theory Spec2Isabelle
  imports Complex_Main
begin

section \<open>JavaScript values\<close>

text \<open>
  The values that \<open>JSON.parse\<close> and \<open>res.json()\<close> hand to the program, plus
  \<open>undefined\<close>, which is what reading a missing property gives. A number is a double:
  the program only tests numbers for truthiness and interpolates them into the prompt, so
  a finite number is given by its value, with the two infinities and NaN beside it.
  An object is the list of its own properties; a lookup takes the first entry of a key.
  A string is the sequence of its code units.
\<close>

datatype jsnum = NaN | Infinity bool | Finite rat

datatype jsval =
    JUndefined
  | JNull
  | JBool bool
  | JNum jsnum
  | JStr string
  | JArr "jsval list"
  | JObj "(string \<times> jsval) list"

text \<open>JavaScript truthiness, as tested by \<open>!x\<close> and \<open>x || y\<close>.\<close>

fun truthy :: "jsval \<Rightarrow> bool" where
  "truthy JUndefined = False"
| "truthy JNull = False"
| "truthy (JBool b) = b"
| "truthy (JNum n) = (case n of NaN \<Rightarrow> False | Infinity _ \<Rightarrow> True | Finite q \<Rightarrow> q \<noteq> 0)"
| "truthy (JStr s) = (s \<noteq> [])"
| "truthy (JArr _) = True"
| "truthy (JObj _) = True"

fun isArray :: "jsval \<Rightarrow> bool" where
  "isArray (JArr _) = True"
| "isArray _ = False"

section \<open>Errors\<close>

text \<open>
  A thrown error is observed through its \<open>message\<close> only (the handler's catch reads
  \<open>error.message\<close>). The message literals of the source contain letters outside ASCII,
  so each literal has a constructor of its own:
  \<^item> \<open>MethodNotAllowed\<close>: the body of the 405 response (line 194);
  \<^item> \<open>LimitReached\<close>: the body of the 429 response (line 216);
  \<^item> \<open>FieldsRequired\<close>: the body of the 400 response (line 229);
  \<^item> \<open>ScriptUpstreamFailed\<close>: thrown by generateScript on a non-ok status (line 105);
  \<^item> \<open>ScriptInvalidInner\<close>: thrown inside generateScript's try block (line 115);
  \<^item> \<open>ScriptBadFormat\<close>: thrown by generateScript's catch (line 121);
  \<^item> \<open>ImageApiFailed t\<close>: thrown in generateImages for a non-ok status, \<open>t\<close> the
    scene's title (line 153);
  \<^item> \<open>InternalError\<close>: the default text of the 500 response (line 257);
  \<^item> \<open>TypeErrorText\<close>: the engine's message of a TypeError, raised by a property read or
    a destructuring of \<open>null\<close> or \<open>undefined\<close>, or by the conversion to a string of an
    object that has no usable \<open>toString\<close>; the texts differ from site to site and are
    never empty, which is all the handler tests;
  \<^item> \<open>Other s\<close>: any other text, set by a builtin or a collaborator (the SyntaxError of
    \<open>JSON.parse\<close>, a network failure of \<open>fetch\<close>); \<open>Other []\<close> stands for an
    empty or missing message.
\<close>

datatype message =
    MethodNotAllowed
  | LimitReached
  | FieldsRequired
  | ScriptUpstreamFailed
  | ScriptInvalidInner
  | ScriptBadFormat
  | ImageApiFailed jsval
  | InternalError
  | TypeErrorText
  | Other string

text \<open>Sequencing of steps that may throw: \<open>Inl\<close> is the thrown error.\<close>

definition bindE :: "message + 'a \<Rightarrow> ('a \<Rightarrow> message + 'b) \<Rightarrow> message + 'b" where
  "bindE r f = (case r of Inl e \<Rightarrow> Inl e | Inr v \<Rightarrow> f v)"

text \<open>
  \<open>x.k\<close> for the property names the program reads (candidates, content, parts, text,
  script, description, title, imageUrl, idea, duration): none of them is a property of a
  primitive's or an array's prototype, so only an object can have one. Reading a property
  of \<open>null\<close> or \<open>undefined\<close> throws a TypeError.
\<close>

fun getProp :: "jsval \<Rightarrow> string \<Rightarrow> message + jsval" where
  "getProp JUndefined k = Inl TypeErrorText"
| "getProp JNull k = Inl TypeErrorText"
| "getProp (JObj kvs) k = Inr (case map_of kvs k of None \<Rightarrow> JUndefined | Some v \<Rightarrow> v)"
| "getProp _ k = Inr JUndefined"

text \<open>\<open>x[0]\<close>: the first element of an array, the first code unit of a string.\<close>

fun getIndex0 :: "jsval \<Rightarrow> message + jsval" where
  "getIndex0 JUndefined = Inl TypeErrorText"
| "getIndex0 JNull = Inl TypeErrorText"
| "getIndex0 (JArr xs) = Inr (case xs of [] \<Rightarrow> JUndefined | x # _ \<Rightarrow> x)"
| "getIndex0 (JStr s) = Inr (case s of [] \<Rightarrow> JUndefined | c # _ \<Rightarrow> JStr [c])"
| "getIndex0 (JObj kvs) = Inr (case map_of kvs ''0'' of None \<Rightarrow> JUndefined | Some v \<Rightarrow> v)"
| "getIndex0 _ = Inr JUndefined"

text \<open>
  Whether the conversion of a value to a string, as a template literal performs it,
  completes. An object parsed from JSON has no callable property, so an own property
  \<open>toString\<close> hides the inherited method and the conversion throws a TypeError; without
  it the inherited method answers. An array is joined, its elements converted in turn
  (\<open>null\<close> and \<open>undefined\<close> give the empty string). A primitive value always converts.
\<close>

fun stringifiable :: "jsval \<Rightarrow> bool" where
  "stringifiable (JObj kvs) = (map_of kvs ''toString'' = None)"
| "stringifiable (JArr xs) = list_all stringifiable xs"
| "stringifiable _ = True"

text \<open>\<open>${v}\<close> inside a template literal: it throws when the conversion does.\<close>

definition interpolate :: "jsval \<Rightarrow> message + unit" where
  "interpolate v = (if stringifiable v then Inr () else Inl TypeErrorText)"

section \<open>The environment of one invocation\<close>

text \<open>
  A response of \<open>fetch\<close>: its \<open>ok\<close> flag and what \<open>text()\<close> and \<open>json()\<close> settle
  with (\<open>Inl\<close> is a rejection).
\<close>

record http_response =
  ok :: bool
  textBody :: "message + string"
  jsonBody :: "message + jsval"

text \<open>
  Everything outside the program that one invocation of the handler reads:
  \<^item> \<open>today\<close>: \<open>new Date().toISOString().split('T')[0]\<close> at line 200;
  \<^item> \<open>initDate\<close>: the same expression at line 51, read only when the counter is unset;
  \<^item> \<open>JSON_parse\<close>: the builtin, applied to a value (it converts its argument to a
    string first); \<open>Inl\<close> is the SyntaxError;
  \<^item> \<open>fetchGemini idea duration\<close>: what the one request to the Gemini API settles with,
    the prompt being built from \<open>idea\<close> and \<open>duration\<close>; \<open>Inl\<close> is a rejection;
  \<^item> \<open>fetchImage i prompt\<close>: what the request for scene number \<open>i\<close> settles with;
  \<^item> \<open>settleOrder\<close>: the scene numbers in the order in which their promises settle; a
    number that does not occur belongs to a promise that never settles.
\<close>

record env =
  today :: string
  initDate :: string
  JSON_parse :: "jsval \<Rightarrow> message + jsval"
  fetchGemini :: "jsval \<Rightarrow> jsval \<Rightarrow> message + http_response"
  fetchImage :: "nat \<Rightarrow> jsval \<Rightarrow> message + http_response"
  settleOrder :: "nat list"

section \<open>The global counter\<close>

definition GLOBAL_DAILY_LIMIT :: nat where
  "GLOBAL_DAILY_LIMIT = 50"

record counter_state =
  count :: nat
  lastReset :: string

text \<open>
  \<open>global.counterState\<close> is \<open>None\<close> while it is unset. getCounterState returns the
  object it leaves in the global, and the global after the call (lines 51-52).
\<close>

definition getCounterState :: "string \<Rightarrow> counter_state option \<Rightarrow> counter_state \<times> counter_state option" where
  "getCounterState d g =
     (case g of
        None \<Rightarrow> (\<lparr>count = 0, lastReset = d\<rparr>, Some \<lparr>count = 0, lastReset = d\<rparr>)
      | Some s \<Rightarrow> (s, Some s))"

text \<open>updateCounterState replaces the global (line 63).\<close>

definition updateCounterState :: "counter_state \<Rightarrow> counter_state option \<Rightarrow> counter_state option" where
  "updateCounterState newState g = Some newState"

text \<open>The reset of a new day (lines 204-207).\<close>

definition resetIfNewDay :: "string \<Rightarrow> counter_state \<Rightarrow> counter_state" where
  "resetIfNewDay d s = (if lastReset s \<noteq> d then \<lparr>count = 0, lastReset = d\<rparr> else s)"

section \<open>Effects\<close>

text \<open>
  The effects a request leaves behind, in order: a call of updateCounterState, the
  request sent to the Gemini API, the request sent to the image API for a scene number.
  Each function below returns, beside its result, the effects of the calls it makes.
\<close>

datatype effect = CounterUpdated counter_state | GeminiCall | ImageCall nat

section \<open>generateScript\<close>

text \<open>
  The try block of lines 111-117: \<open>Inl\<close> is whatever it throws. After the test of line
  114 the value is an array, and the final \<open>case\<close> only takes its elements.
\<close>

definition extractScript :: "env \<Rightarrow> jsval \<Rightarrow> message + jsval list" where
  "extractScript e data =
     bindE (getProp data ''candidates'') (\<lambda>cs.
     bindE (getIndex0 cs) (\<lambda>c.
     bindE (getProp c ''content'') (\<lambda>ct.
     bindE (getProp ct ''parts'') (\<lambda>ps.
     bindE (getIndex0 ps) (\<lambda>p.
     bindE (getProp p ''text'') (\<lambda>scriptJsonText.
     bindE (JSON_parse e scriptJsonText) (\<lambda>result.
     bindE (getProp result ''script'') (\<lambda>s.
       if \<not> truthy s \<or> \<not> isArray s then Inl ScriptInvalidInner
       else (case s of JArr scenes \<Rightarrow> Inr scenes | _ \<Rightarrow> Inl ScriptInvalidInner)))))))))"

text \<open>
  The prompt of lines 77-88 interpolates \<open>duration\<close>, then \<open>idea\<close>; a throw there leaves
  the function before anything is sent.
\<close>

definition buildPrompt :: "jsval \<Rightarrow> jsval \<Rightarrow> message + unit" where
  "buildPrompt idea duration = bindE (interpolate duration) (\<lambda>_. interpolate idea)"

text \<open>What follows the \<open>fetch\<close> of line 90, from its settlement on (lines 102-122).\<close>

definition afterFetch :: "env \<Rightarrow> message + http_response \<Rightarrow> message + jsval list" where
  "afterFetch e settled =
     bindE settled (\<lambda>response.
       if \<not> ok response then
         bindE (textBody response) (\<lambda>errorBody. Inl ScriptUpstreamFailed)
       else
         bindE (jsonBody response) (\<lambda>data.
           case extractScript e data of
             Inl _ \<Rightarrow> Inl ScriptBadFormat
           | Inr scenes \<Rightarrow> Inr scenes))"

definition generateScript :: "env \<Rightarrow> jsval \<Rightarrow> jsval \<Rightarrow> (message + jsval list) \<times> effect list" where
  "generateScript e idea duration =
     (case buildPrompt idea duration of
        Inl err \<Rightarrow> (Inl err, [])
      | Inr _ \<Rightarrow> (afterFetch e (fetchGemini e idea duration), [GeminiCall]))"

section \<open>generateImages\<close>

definition GENERATED_URL :: string where
  "GENERATED_URL = ''https://via.placeholder.com/1024x1024.png?text=Imagem+Gerada''"

definition FAILED_URL :: string where
  "FAILED_URL = ''https://via.placeholder.com/1024x1024.png?text=Falha+ao+Gerar''"

text \<open>The first \<open>then\<close> (lines 152-155), the second (156-160) and the \<open>catch\<close> (161-165).\<close>

definition imageThenJson :: "jsval \<Rightarrow> http_response \<Rightarrow> message + jsval" where
  "imageThenJson scene res =
     (if \<not> ok res then
        bindE (getProp scene ''title'') (\<lambda>t.
        bindE (interpolate t) (\<lambda>_. Inl (ImageApiFailed t)))
      else jsonBody res)"

definition imageThenUrl :: "jsval \<Rightarrow> message + jsval" where
  "imageThenUrl data =
     bindE (getProp data ''imageUrl'') (\<lambda>u. Inr (if truthy u then u else JStr GENERATED_URL))"

definition imageCatch :: "message + jsval \<Rightarrow> jsval" where
  "imageCatch r = (case r of Inl error \<Rightarrow> JStr FAILED_URL | Inr v \<Rightarrow> v)"

text \<open>
  The part of the callback of \<open>script.map\<close> that runs before its \<open>fetch\<close>, outside the
  promise chain: reading \<open>scene.description\<close> (line 134) and interpolating it into the
  log line (line 137). \<open>Inl\<close> when one of them throws.
\<close>

definition scenePrompt :: "jsval \<Rightarrow> message + jsval" where
  "scenePrompt scene =
     bindE (getProp scene ''description'') (\<lambda>prompt.
     bindE (interpolate prompt) (\<lambda>_. Inr prompt))"

text \<open>
  The callback for scene number \<open>i\<close>: \<open>Inl\<close> when it throws, and then no request is
  sent; otherwise the request is sent and the result is the value the chained promise is
  fulfilled with; that promise never rejects.
\<close>

definition sceneImage :: "env \<Rightarrow> nat \<Rightarrow> jsval \<Rightarrow> (message + jsval) \<times> effect list" where
  "sceneImage e i scene =
     (case scenePrompt scene of
        Inl err \<Rightarrow> (Inl err, [])
      | Inr prompt \<Rightarrow>
          (Inr (imageCatch (bindE (bindE (fetchImage e i prompt) (imageThenJson scene)) imageThenUrl)),
           [ImageCall i]))"

text \<open>
  \<open>script.map\<close> from scene number \<open>i\<close> on: it stops at the first callback that throws,
  the requests of the earlier scenes being sent already.
\<close>

fun mapScenes :: "env \<Rightarrow> nat \<Rightarrow> jsval list \<Rightarrow> (message + jsval list) \<times> effect list" where
  "mapScenes e i [] = (Inr [], [])"
| "mapScenes e i (scene # rest) =
     (case sceneImage e i scene of
        (Inl err, tr) \<Rightarrow> (Inl err, tr)
      | (Inr v, tr) \<Rightarrow>
          (case mapScenes e (Suc i) rest of
             (Inl err, tr') \<Rightarrow> (Inl err, tr @ tr')
           | (Inr vs, tr') \<Rightarrow> (Inr (v # vs), tr @ tr')))"

text \<open>
  \<open>Promise.all\<close> over promises that never reject, \<open>vs\<close> the values they are fulfilled
  with: every settlement stores its value in the slot of its index, and the result is
  delivered once every slot is filled. \<open>None\<close>: some promise never settles, and neither
  does \<open>Promise.all\<close>.
\<close>

definition promiseAll :: "nat list \<Rightarrow> 'a list \<Rightarrow> 'a list option" where
  "promiseAll order vs =
     (let slots = fold (\<lambda>i acc. if i < length vs then acc[i := Some (vs ! i)] else acc)
                    order (replicate (length vs) None)
      in if list_all (\<lambda>s. s \<noteq> None) slots then Some (map the slots) else None)"

text \<open>generateImages: \<open>None\<close> when it never settles, \<open>Some (Inl err)\<close> when it rejects.\<close>

definition generateImages :: "env \<Rightarrow> jsval list \<Rightarrow> (message + jsval list) option \<times> effect list" where
  "generateImages e script =
     (case mapScenes e 0 script of
        (Inl err, tr) \<Rightarrow> (Some (Inl err), tr)
      | (Inr vs, tr) \<Rightarrow> (map_option Inr (promiseAll (settleOrder e) vs), tr))"

section \<open>The handler\<close>

text \<open>
  The request, and the response without its headers, which are the same on every path.
  The body of a response is kept as the value that \<open>JSON.stringify\<close> is applied to.
\<close>

record event =
  httpMethod :: string
  body :: jsval

datatype payload = NoBody | ErrorBody message | ResultBody "jsval list" "jsval list"

record response =
  statusCode :: nat
  respBody :: payload

text \<open>
  What one invocation leaves: the response (\<open>None\<close> when the handler never returns), the
  global counter, and the effects in order: the call of updateCounterState, then those of
  generateScript, then those of generateImages.
\<close>

record outcome =
  reply :: "response option"
  store :: "counter_state option"
  trace :: "effect list"

text \<open>\<open>error.message || '...'\<close> of line 257.\<close>

definition messageOrDefault :: "message \<Rightarrow> message" where
  "messageOrDefault m = (if m = Other [] then InternalError else m)"

text \<open>\<open>const { idea, duration } = JSON.parse(event.body)\<close> (line 224).\<close>

definition parseBody :: "env \<Rightarrow> jsval \<Rightarrow> message + (jsval \<times> jsval)" where
  "parseBody e b =
     bindE (JSON_parse e b) (\<lambda>v.
     bindE (getProp v ''idea'') (\<lambda>idea.
     bindE (getProp v ''duration'') (\<lambda>duration. Inr (idea, duration))))"

text \<open>
  The try block of the handler (lines 199-251) with its catch (252-259). The object that
  getCounterState returns is the global itself when no reset happens, so the increment of
  line 234 is already visible in the global; line 235 then stores the same object. No
  other step lies between the two lines, and the model performs them as one update.
\<close>

definition business :: "env \<Rightarrow> counter_state option \<Rightarrow> event \<Rightarrow> outcome" where
  "business e g ev =
     (case getCounterState (initDate e) g of (state0, g1) \<Rightarrow>
      let state = resetIfNewDay (today e) state0 in
      if count state \<ge> GLOBAL_DAILY_LIMIT then
        \<lparr>reply = Some \<lparr>statusCode = 429, respBody = ErrorBody LimitReached\<rparr>,
         store = g1, trace = []\<rparr>
      else
        (case parseBody e (body ev) of
           Inl err \<Rightarrow>
             \<lparr>reply = Some \<lparr>statusCode = 500, respBody = ErrorBody (messageOrDefault err)\<rparr>,
              store = g1, trace = []\<rparr>
         | Inr (idea, duration) \<Rightarrow>
             if \<not> truthy idea \<or> \<not> truthy duration then
               \<lparr>reply = Some \<lparr>statusCode = 400, respBody = ErrorBody FieldsRequired\<rparr>,
                store = g1, trace = []\<rparr>
             else
               let state' = state\<lparr>count := count state + 1\<rparr>;
                   g2 = updateCounterState state' g1
               in
               (case generateScript e idea duration of
                  (Inl err, tr1) \<Rightarrow>
                    \<lparr>reply = Some \<lparr>statusCode = 500, respBody = ErrorBody (messageOrDefault err)\<rparr>,
                     store = g2, trace = CounterUpdated state' # tr1\<rparr>
                | (Inr script, tr1) \<Rightarrow>
                    (case generateImages e script of (r, tr2) \<Rightarrow>
                       \<lparr>reply =
                          (case r of
                             None \<Rightarrow> None
                           | Some (Inl err) \<Rightarrow>
                               Some \<lparr>statusCode = 500, respBody = ErrorBody (messageOrDefault err)\<rparr>
                           | Some (Inr images) \<Rightarrow>
                               Some \<lparr>statusCode = 200, respBody = ResultBody script images\<rparr>),
                        store = g2,
                        trace = CounterUpdated state' # tr1 @ tr2\<rparr>))))"

definition handler :: "env \<Rightarrow> counter_state option \<Rightarrow> event \<Rightarrow> outcome" where
  "handler e g ev =
     (if httpMethod ev = ''OPTIONS'' then
        \<lparr>reply = Some \<lparr>statusCode = 204, respBody = NoBody\<rparr>, store = g, trace = []\<rparr>
      else if httpMethod ev \<noteq> ''POST'' then
        \<lparr>reply = Some \<lparr>statusCode = 405, respBody = ErrorBody MethodNotAllowed\<rparr>,
         store = g, trace = []\<rparr>
      else business e g ev)"

section \<open>Notions used by the properties\<close>

text \<open>The state that the limit check of line 210 sees: the stored one, reset on a new day.\<close>

definition effectiveState :: "env \<Rightarrow> counter_state option \<Rightarrow> counter_state" where
  "effectiveState e g = resetIfNewDay (today e) (fst (getCounterState (initDate e) g))"

fun isCounterUpdated :: "effect \<Rightarrow> bool" where
  "isCounterUpdated (CounterUpdated _) = True"
| "isCounterUpdated _ = False"

text \<open>A request is admitted when it gets as far as updateCounterState (line 235).\<close>

definition admitted :: "outcome \<Rightarrow> bool" where
  "admitted out = list_ex isCounterUpdated (trace out)"

text \<open>
  Requests served one after the other, each in its own environment, the global counter
  handed from one to the next: the outcomes, and the counter at the end.
\<close>

fun serve :: "counter_state option \<Rightarrow> (env \<times> event) list \<Rightarrow> outcome list \<times> counter_state option" where
  "serve g [] = ([], g)"
| "serve g ((e, ev) # rest) =
     (case serve (store (handler e g ev)) rest of
        (outs, g') \<Rightarrow> (handler e g ev # outs, g'))"

text \<open>
  The words of the specification for the image calls. A call fails by a transport error,
  a status that is not a success, or an error thrown while its response is processed (a
  body that is not JSON, or a body that is \<open>null\<close>, whose property cannot be read).
\<close>

definition imageCallFailed :: "message + http_response \<Rightarrow> bool" where
  "imageCallFailed r =
     (case r of
        Inl _ \<Rightarrow> True
      | Inr res \<Rightarrow>
          \<not> ok res \<or>
          (case jsonBody res of
             Inl _ \<Rightarrow> True
           | Inr data \<Rightarrow> data = JNull \<or> data = JUndefined))"

text \<open>
  The reference a call that did not fail resolves to: the payload's \<open>imageUrl\<close>, or the
  "image generated" placeholder when the payload has none.
\<close>

definition resolvedReference :: "message + http_response \<Rightarrow> jsval" where
  "resolvedReference r =
     (case r of
        Inr res \<Rightarrow>
          (case jsonBody res of
             Inr (JObj kvs) \<Rightarrow>
               (case map_of kvs ''imageUrl'' of
                  Some u \<Rightarrow> if truthy u then u else JStr GENERATED_URL
                | None \<Rightarrow> JStr GENERATED_URL)
           | _ \<Rightarrow> JStr GENERATED_URL)
      | Inl _ \<Rightarrow> JStr GENERATED_URL)"

text \<open>
  The specification's Scene: a record with the five named fields, each a string.
\<close>

definition isSceneShaped :: "jsval \<Rightarrow> bool" where
  "isSceneShaped v =
     (case v of
        JObj kvs \<Rightarrow>
          list_all (\<lambda>k. case map_of kvs k of Some (JStr _) \<Rightarrow> True | _ \<Rightarrow> False)
            [''title'', ''timing'', ''description'', ''soundtrackSuggestion'', ''narrationScript'']
      | _ \<Rightarrow> False)"

text \<open>\<open>data.candidates[0].content.parts[0].text\<close>, the first step of the try block.\<close>

definition candidateText :: "jsval \<Rightarrow> message + jsval" where
  "candidateText data =
     bindE (getProp data ''candidates'') (\<lambda>cs.
     bindE (getIndex0 cs) (\<lambda>c.
     bindE (getProp c ''content'') (\<lambda>ct.
     bindE (getProp ct ''parts'') (\<lambda>ps.
     bindE (getIndex0 ps) (\<lambda>p. getProp p ''text'')))))"

text \<open>An object without the property \<open>k\<close>.\<close>

definition withoutKey :: "string \<Rightarrow> (string \<times> jsval) list \<Rightarrow> (string \<times> jsval) list" where
  "withoutKey k kvs = filter (\<lambda>kv. fst kv \<noteq> k) kvs"

text \<open>
  A scene for which a request is sent: it is neither \<open>null\<close> nor \<open>undefined\<close>, and
  its \<open>description\<close> converts to a string. A Scene-shaped record is one, its
  \<open>description\<close> being a string.
\<close>

definition promptOf :: "jsval \<Rightarrow> jsval" where
  "promptOf scene = (case getProp scene ''description'' of Inr prompt \<Rightarrow> prompt | Inl _ \<Rightarrow> JUndefined)"

definition sceneCallable :: "jsval \<Rightarrow> bool" where
  "sceneCallable scene =
     (scene \<noteq> JNull \<and> scene \<noteq> JUndefined \<and> stringifiable (promptOf scene))"

text \<open>What the image request of scene number \<open>i\<close> settles with.\<close>

definition sceneCall :: "env \<Rightarrow> nat \<Rightarrow> jsval \<Rightarrow> message + http_response" where
  "sceneCall e i scene = fetchImage e i (promptOf scene)"

text \<open>
  The array that generateScript finds: the candidate text, parsed, has it under \<open>script\<close>.
  \<open>None\<close> when the text cannot be reached or parsed, or when \<open>script\<close> is missing or is
  not an array.
\<close>

definition parsedScript :: "env \<Rightarrow> jsval \<Rightarrow> jsval list option" where
  "parsedScript e data =
     (case candidateText data of
        Inl _ \<Rightarrow> None
      | Inr t \<Rightarrow>
          (case JSON_parse e t of
             Inl _ \<Rightarrow> None
           | Inr result \<Rightarrow>
               (case getProp result ''script'' of
                  Inr (JArr scenes) \<Rightarrow> Some scenes
                | _ \<Rightarrow> None)))"

section \<open>Example inputs\<close>

text \<open>
  Request bodies and a Gemini answer, as texts and as the values \<open>JSON.parse\<close> gives for
  them. \<open>exampleParse\<close> is the table of \<open>JSON.parse\<close> on these texts; any other argument
  is answered with a SyntaxError, and the examples apply it to no other argument than
  \<open>brokenText\<close>, which is not JSON.
\<close>

definition unprintableIdeaText :: string where
  \<open>unprintableIdeaText = ''{"idea":{"toString":1},"duration":30}''\<close>

definition requestText :: string where
  \<open>requestText = ''{"idea":"a robot learns to paint","duration":30}''\<close>

definition noIdeaText :: string where
  \<open>noIdeaText = ''{"duration":30}''\<close>

definition emptyIdeaText :: string where
  \<open>emptyIdeaText = ''{"idea":"","duration":30}''\<close>

definition zeroDurationText :: string where
  \<open>zeroDurationText = ''{"idea":"a robot learns to paint","duration":0}''\<close>

definition noDurationText :: string where
  \<open>noDurationText = ''{"idea":"a robot learns to paint"}''\<close>

definition brokenText :: string where
  \<open>brokenText = ''{"idea":''\<close>

definition sceneText :: "string \<Rightarrow> string" where
  \<open>sceneText t = ''{"title":"'' @ t @ ''","timing":"0-10s","description":"a robot paints",''
     @ ''"soundtrackSuggestion":"piano","narrationScript":"Once upon a time"}''\<close>

definition exampleScene :: "string \<Rightarrow> jsval" where
  "exampleScene t =
     JObj [(''title'', JStr t), (''timing'', JStr ''0-10s''),
           (''description'', JStr ''a robot paints''),
           (''soundtrackSuggestion'', JStr ''piano''),
           (''narrationScript'', JStr ''Once upon a time'')]"

definition scriptText :: string where
  \<open>scriptText = ''{"script":['' @ sceneText ''A'' @ '','' @ sceneText ''B'' @ '','' @ sceneText ''C'' @ '']}''\<close>

definition exampleScript :: "jsval list" where
  "exampleScript = [exampleScene ''A'', exampleScene ''B'', exampleScene ''C'']"

definition numbersText :: string where
  \<open>numbersText = ''{"script":[1]}''\<close>

definition exampleParse :: "jsval \<Rightarrow> message + jsval" where
  "exampleParse v =
     (case v of
        JStr s \<Rightarrow>
          if s = requestText then
            Inr (JObj [(''idea'', JStr ''a robot learns to paint''), (''duration'', JNum (Finite 30))])
          else if s = noIdeaText then
            Inr (JObj [(''duration'', JNum (Finite 30))])
          else if s = emptyIdeaText then
            Inr (JObj [(''idea'', JStr []), (''duration'', JNum (Finite 30))])
          else if s = zeroDurationText then
            Inr (JObj [(''idea'', JStr ''a robot learns to paint''), (''duration'', JNum (Finite 0))])
          else if s = noDurationText then
            Inr (JObj [(''idea'', JStr ''a robot learns to paint'')])
          else if s = scriptText then
            Inr (JObj [(''script'', JArr exampleScript)])
          else if s = numbersText then
            Inr (JObj [(''script'', JArr [JNum (Finite 1)])])
          else if s = unprintableIdeaText then
            Inr (JObj [(''idea'', JObj [(''toString'', JNum (Finite 1))]),
                       (''duration'', JNum (Finite 30))])
          else Inl (Other ''Unexpected token'')
      | _ \<Rightarrow> Inl (Other ''Unexpected token''))"

text \<open>The payload of the Gemini API around a text, and two responses.\<close>

definition geminiPayload :: "string \<Rightarrow> jsval" where
  "geminiPayload t =
     JObj [(''candidates'',
            JArr [JObj [(''content'', JObj [(''parts'', JArr [JObj [(''text'', JStr t)]])])]])]"

definition okResponse :: "jsval \<Rightarrow> http_response" where
  "okResponse data = \<lparr>ok = True, textBody = Inr ''(the body as text)'', jsonBody = Inr data\<rparr>"

definition errorResponse :: http_response where
  "errorResponse =
     \<lparr>ok = False, textBody = Inr ''Service Unavailable'', jsonBody = Inl (Other ''Unexpected token'')\<rparr>"

text \<open>
  A day on which Gemini answers with the three scenes and the image API fails for the
  second scene only; the images settle in the order third, first, second.
\<close>

definition exampleEnv :: env where
  "exampleEnv =
     \<lparr>today = ''2024-05-01'', initDate = ''2024-05-01'', JSON_parse = exampleParse,
      fetchGemini = (\<lambda>idea duration. Inr (okResponse (geminiPayload scriptText))),
      fetchImage = (\<lambda>i prompt.
        if i = 1 then Inl (Other ''fetch failed'')
        else Inr (okResponse (JObj [(''imageUrl'', JStr ''https://img.example/scene.png'')]))),
      settleOrder = [2, 0, 1]\<rparr>"

definition post :: "string \<Rightarrow> event" where
  "post t = \<lparr>httpMethod = ''POST'', body = JStr t\<rparr>"

text \<open>The same day with the Gemini API answering with an error status.\<close>

definition geminiDownEnv :: env where
  "geminiDownEnv = exampleEnv\<lparr>fetchGemini := (\<lambda>idea duration. Inr errorResponse)\<rparr>"

text \<open>The same day with no connection to the Gemini API.\<close>

definition geminiUnreachableEnv :: env where
  "geminiUnreachableEnv = exampleEnv\<lparr>fetchGemini := (\<lambda>idea duration. Inl (Other ''fetch failed''))\<rparr>"

text \<open>The same day with Gemini answering \<open>{"script":[1]}\<close>.\<close>

definition numbersEnv :: env where
  "numbersEnv = exampleEnv\<lparr>fetchGemini := (\<lambda>idea duration. Inr (okResponse (geminiPayload numbersText)))\<rparr>"

section \<open>Shared lemmas\<close>

lemma business_unfold:
  "business e g ev =
     (if GLOBAL_DAILY_LIMIT \<le> count (effectiveState e g) then
        \<lparr>reply = Some \<lparr>statusCode = 429, respBody = ErrorBody LimitReached\<rparr>,
         store = snd (getCounterState (initDate e) g), trace = []\<rparr>
      else
        (case parseBody e (body ev) of
           Inl err \<Rightarrow>
             \<lparr>reply = Some \<lparr>statusCode = 500, respBody = ErrorBody (messageOrDefault err)\<rparr>,
              store = snd (getCounterState (initDate e) g), trace = []\<rparr>
         | Inr (idea, duration) \<Rightarrow>
             if \<not> truthy idea \<or> \<not> truthy duration then
               \<lparr>reply = Some \<lparr>statusCode = 400, respBody = ErrorBody FieldsRequired\<rparr>,
                store = snd (getCounterState (initDate e) g), trace = []\<rparr>
             else
               (case fst (generateScript e idea duration) of
                  Inl err \<Rightarrow>
                    \<lparr>reply = Some \<lparr>statusCode = 500, respBody = ErrorBody (messageOrDefault err)\<rparr>,
                     store = Some ((effectiveState e g)\<lparr>count := count (effectiveState e g) + 1\<rparr>),
                     trace = CounterUpdated ((effectiveState e g)\<lparr>count := count (effectiveState e g) + 1\<rparr>)
                               # snd (generateScript e idea duration)\<rparr>
                | Inr script \<Rightarrow>
                    \<lparr>reply =
                       (case fst (generateImages e script) of
                          None \<Rightarrow> None
                        | Some (Inl err) \<Rightarrow>
                            Some \<lparr>statusCode = 500, respBody = ErrorBody (messageOrDefault err)\<rparr>
                        | Some (Inr images) \<Rightarrow>
                            Some \<lparr>statusCode = 200, respBody = ResultBody script images\<rparr>),
                     store = Some ((effectiveState e g)\<lparr>count := count (effectiveState e g) + 1\<rparr>),
                     trace = CounterUpdated ((effectiveState e g)\<lparr>count := count (effectiveState e g) + 1\<rparr>)
                               # snd (generateScript e idea duration)
                               @ snd (generateImages e script)\<rparr>)))"
  by (cases "getCounterState (initDate e) g"; cases "generateScript e idea duration")
     (simp add: business_def effectiveState_def updateCounterState_def Let_def
           split: prod.splits sum.splits)

lemmas handler_defs = handler_def business_unfold

lemma generateScript_trace:
  "snd (generateScript e idea duration) = (if buildPrompt idea duration = Inr () then [GeminiCall] else [])"
  by (cases "buildPrompt idea duration") (simp_all add: generateScript_def)

lemma sceneImage_trace:
  "snd (sceneImage e i scene) = (case scenePrompt scene of Inl _ \<Rightarrow> [] | Inr _ \<Rightarrow> [ImageCall i])"
  by (simp add: sceneImage_def split: sum.splits)

lemma mapScenes_trace:
  "set (snd (mapScenes e i scenes)) \<subseteq> range ImageCall"
proof (induction scenes arbitrary: i)
  case Nil
  then show ?case by simp
next
  case (Cons scene rest)
  obtain r tr where s: "sceneImage e i scene = (r, tr)" by (cases "sceneImage e i scene")
  obtain r' tr' where m: "mapScenes e (Suc i) rest = (r', tr')" by (cases "mapScenes e (Suc i) rest")
  have "set tr \<subseteq> range ImageCall"
    using sceneImage_trace [of e i scene] s by (auto split: sum.splits)
  moreover have "set tr' \<subseteq> range ImageCall"
    using Cons.IH [of "Suc i"] m by simp
  ultimately show ?case
    using s m by (cases r; cases r') auto
qed

lemma generateImages_trace:
  "set (snd (generateImages e script)) \<subseteq> range ImageCall"
  using mapScenes_trace [of e 0 script]
  by (auto simp: generateImages_def split: prod.splits sum.splits)

lemma upstream_calls_only:
  "\<not> list_ex isCounterUpdated (snd (generateScript e idea duration) @ snd (generateImages e script))"
  using generateImages_trace [of e script]
  by (auto simp: list_ex_iff generateScript_trace)

lemma script_call_only:
  "\<not> list_ex isCounterUpdated (snd (generateScript e idea duration))"
  by (simp add: generateScript_trace)

lemma handler_rejected:
  assumes "httpMethod ev = ''POST''" and "GLOBAL_DAILY_LIMIT \<le> count (effectiveState e g)"
  shows "handler e g ev =
           \<lparr>reply = Some \<lparr>statusCode = 429, respBody = ErrorBody LimitReached\<rparr>,
            store = snd (getCounterState (initDate e) g), trace = []\<rparr>"
  using assms by (simp add: handler_defs)

lemma handler_parse_error:
  assumes "httpMethod ev = ''POST''" and "count (effectiveState e g) < GLOBAL_DAILY_LIMIT"
    and "parseBody e (body ev) = Inl err"
  shows "handler e g ev =
           \<lparr>reply = Some \<lparr>statusCode = 500, respBody = ErrorBody (messageOrDefault err)\<rparr>,
            store = snd (getCounterState (initDate e) g), trace = []\<rparr>"
  using assms by (simp add: handler_defs)

lemma handler_invalid:
  assumes "httpMethod ev = ''POST''" and "count (effectiveState e g) < GLOBAL_DAILY_LIMIT"
    and "parseBody e (body ev) = Inr (idea, duration)"
    and "\<not> truthy idea \<or> \<not> truthy duration"
  shows "handler e g ev =
           \<lparr>reply = Some \<lparr>statusCode = 400, respBody = ErrorBody FieldsRequired\<rparr>,
            store = snd (getCounterState (initDate e) g), trace = []\<rparr>"
  using assms by (auto simp add: handler_defs)

lemma handler_admitted:
  assumes "httpMethod ev = ''POST''" and "count (effectiveState e g) < GLOBAL_DAILY_LIMIT"
    and "parseBody e (body ev) = Inr (idea, duration)"
    and "truthy idea" and "truthy duration"
  shows "store (handler e g ev) = Some ((effectiveState e g)\<lparr>count := count (effectiveState e g) + 1\<rparr>)"
    and "\<exists>tr. trace (handler e g ev) =
            CounterUpdated ((effectiveState e g)\<lparr>count := count (effectiveState e g) + 1\<rparr>) # tr
          \<and> \<not> list_ex isCounterUpdated tr"
proof -
  let ?s = "(effectiveState e g)\<lparr>count := count (effectiveState e g) + 1\<rparr>"
  show "store (handler e g ev) = Some ?s"
    using assms by (simp add: handler_defs split: sum.splits)
  show "\<exists>tr. trace (handler e g ev) = CounterUpdated ?s # tr \<and> \<not> list_ex isCounterUpdated tr"
  proof (cases "fst (generateScript e idea duration)")
    case (Inl err)
    then show ?thesis
      using assms script_call_only [of e idea duration] by (simp add: handler_defs)
  next
    case (Inr script)
    then show ?thesis
      using assms upstream_calls_only [of e idea duration script] by (simp add: handler_defs)
  qed
qed

lemma admitted_iff:
  assumes "httpMethod ev = ''POST''"
  shows "admitted (handler e g ev) \<longleftrightarrow>
           count (effectiveState e g) < GLOBAL_DAILY_LIMIT
           \<and> (\<exists>idea duration. parseBody e (body ev) = Inr (idea, duration) \<and> truthy idea \<and> truthy duration)"
proof (cases "count (effectiveState e g) < GLOBAL_DAILY_LIMIT")
  case False
  then show ?thesis
    using handler_rejected [OF assms, of e g] by (simp add: admitted_def)
next
  case lt: True
  show ?thesis
  proof (cases "parseBody e (body ev)")
    case (Inl err)
    then show ?thesis
      using handler_parse_error [OF assms lt] lt by (simp add: admitted_def)
  next
    case (Inr p)
    obtain idea duration where p: "p = (idea, duration)" by (cases p)
    show ?thesis
    proof (cases "truthy idea \<and> truthy duration")
      case True
      then show ?thesis
        using handler_admitted(2) [OF assms lt Inr [unfolded p]] lt Inr p
        by (auto simp: admitted_def)
    next
      case False
      then show ?thesis
        using handler_invalid [OF assms lt Inr [unfolded p]] lt Inr p
        by (auto simp: admitted_def)
    qed
  qed
qed

lemmas example_defs = exampleEnv_def exampleParse_def post_def requestText_def noIdeaText_def
  emptyIdeaText_def zeroDurationText_def noDurationText_def brokenText_def scriptText_def
  sceneText_def numbersText_def unprintableIdeaText_def

lemma effectiveState_Some:
  "effectiveState e (Some s) =
     (if lastReset s \<noteq> today e then \<lparr>count = 0, lastReset = today e\<rparr> else s)"
  by (simp add: effectiveState_def getCounterState_def resetIfNewDay_def)

lemma effectiveState_None: "count (effectiveState e None) = 0"
  by (simp add: effectiveState_def getCounterState_def resetIfNewDay_def)

lemma getCounterState_Some: "getCounterState d (Some s) = (s, Some s)"
  by (simp add: getCounterState_def)

lemma example_parseBody:
  "parseBody exampleEnv (body (post requestText))
     = Inr (JStr ''a robot learns to paint'', JNum (Finite 30))"
  by (simp add: parseBody_def bindE_def example_defs)

lemma example_generateScript:
  "generateScript exampleEnv (JStr ''a robot learns to paint'') (JNum (Finite 30))
     = (Inr exampleScript, [GeminiCall])"
  by (simp add: generateScript_def buildPrompt_def interpolate_def afterFetch_def
        extractScript_def bindE_def example_defs okResponse_def geminiPayload_def)

lemma example_mapScenes:
  "mapScenes exampleEnv 0 exampleScript
     = (Inr [JStr ''https://img.example/scene.png'', JStr FAILED_URL,
             JStr ''https://img.example/scene.png''],
        [ImageCall 0, ImageCall 1, ImageCall 2])"
  by (simp add: exampleScript_def exampleScene_def sceneImage_def scenePrompt_def
        interpolate_def bindE_def imageThenJson_def imageThenUrl_def imageCatch_def
        exampleEnv_def okResponse_def)

lemma example_generateImages:
  "generateImages exampleEnv exampleScript
     = (Some (Inr [JStr ''https://img.example/scene.png'', JStr FAILED_URL,
                   JStr ''https://img.example/scene.png'']),
        [ImageCall 0, ImageCall 1, ImageCall 2])"
  by (simp add: generateImages_def example_mapScenes promiseAll_def)
     (simp add: exampleEnv_def)

lemma example_handler:
  assumes "c < 50"
  shows "handler exampleEnv (Some \<lparr>count = c, lastReset = ''2024-05-01''\<rparr>) (post requestText)
     = \<lparr>reply = Some \<lparr>statusCode = 200,
                       respBody = ResultBody exampleScript
                         [JStr ''https://img.example/scene.png'', JStr FAILED_URL,
                          JStr ''https://img.example/scene.png'']\<rparr>,
        store = Some \<lparr>count = c + 1, lastReset = ''2024-05-01''\<rparr>,
        trace = [CounterUpdated \<lparr>count = c + 1, lastReset = ''2024-05-01''\<rparr>, GeminiCall,
                 ImageCall 0, ImageCall 1, ImageCall 2]\<rparr>"
proof -
  have m: "httpMethod (post requestText) = ''POST''" by (simp add: post_def)
  have t: "today exampleEnv = ''2024-05-01''" by (simp add: exampleEnv_def)
  show ?thesis
    using assms
    by (simp add: handler_def m business_unfold effectiveState_Some t GLOBAL_DAILY_LIMIT_def
          example_parseBody example_generateScript example_generateImages)
qed

lemma geminiDown_generateScript:
  "generateScript geminiDownEnv (JStr ''a robot learns to paint'') (JNum (Finite 30))
     = (Inl ScriptUpstreamFailed, [GeminiCall])"
  by (simp add: generateScript_def buildPrompt_def interpolate_def afterFetch_def bindE_def
        geminiDownEnv_def errorResponse_def)

lemma admitted_post: "admitted (handler e g ev) \<Longrightarrow> httpMethod ev = ''POST''"
  by (auto simp: handler_def admitted_def split: if_splits)

lemma admitted_step:
  assumes "admitted (handler e (Some s) ev)" and "lastReset s = today e"
  shows "count s < GLOBAL_DAILY_LIMIT"
    and "store (handler e (Some s) ev) = Some (s\<lparr>count := count s + 1\<rparr>)"
    and "\<exists>tr. trace (handler e (Some s) ev) = CounterUpdated (s\<lparr>count := count s + 1\<rparr>) # tr
           \<and> \<not> list_ex isCounterUpdated tr"
proof -
  have m: "httpMethod ev = ''POST''"
    using assms(1) by (rule admitted_post)
  have eff: "effectiveState e (Some s) = s"
    using assms(2) by (simp add: effectiveState_Some)
  from assms(1) obtain idea duration where lt: "count (effectiveState e (Some s)) < GLOBAL_DAILY_LIMIT"
    and p: "parseBody e (body ev) = Inr (idea, duration)" and ti: "truthy idea" and td: "truthy duration"
    unfolding admitted_iff [OF m] by blast
  show "count s < GLOBAL_DAILY_LIMIT" using lt eff by simp
  show "store (handler e (Some s) ev) = Some (s\<lparr>count := count s + 1\<rparr>)"
    using handler_admitted(1) [OF m lt p ti td] eff by simp
  show "\<exists>tr. trace (handler e (Some s) ev) = CounterUpdated (s\<lparr>count := count s + 1\<rparr>) # tr
           \<and> \<not> list_ex isCounterUpdated tr"
    using handler_admitted(2) [OF m lt p ti td] eff by auto
qed

lemma serve_admitted:
  assumes "\<forall>(e, ev) \<in> set rs. today e = d"
    and "list_all admitted (fst (serve (Some \<lparr>count = c, lastReset = d\<rparr>) rs))"
  shows "snd (serve (Some \<lparr>count = c, lastReset = d\<rparr>) rs)
           = Some \<lparr>count = c + length rs, lastReset = d\<rparr>
       \<and> (\<forall>k < length rs. \<exists>tr.
             trace (fst (serve (Some \<lparr>count = c, lastReset = d\<rparr>) rs) ! k)
               = CounterUpdated \<lparr>count = c + k + 1, lastReset = d\<rparr> # tr
             \<and> \<not> list_ex isCounterUpdated tr)"
  using assms
proof (induction rs arbitrary: c)
  case Nil
  then show ?case by simp
next
  case (Cons r rs)
  obtain e ev where r: "r = (e, ev)" by (cases r)
  let ?s = "\<lparr>count = c, lastReset = d\<rparr>"
  have d: "today e = d" using Cons.prems(1) r by simp
  have adm: "admitted (handler e (Some ?s) ev)"
    using Cons.prems(2) r by (simp split: prod.splits)
  have lr: "lastReset ?s = today e" using d by simp
  have st: "store (handler e (Some ?s) ev) = Some \<lparr>count = c + 1, lastReset = d\<rparr>"
    using admitted_step(2) [OF adm lr] by simp
  obtain tr0 where tr0: "trace (handler e (Some ?s) ev)
       = CounterUpdated \<lparr>count = c + 1, lastReset = d\<rparr> # tr0"
    "\<not> list_ex isCounterUpdated tr0"
    using admitted_step(3) [OF adm lr] by auto
  have rest1: "\<forall>(e, ev) \<in> set rs. today e = d" using Cons.prems(1) by simp
  have rest2: "list_all admitted (fst (serve (Some \<lparr>count = c + 1, lastReset = d\<rparr>) rs))"
    using Cons.prems(2) r st by (simp split: prod.splits)
  note IH = Cons.IH [OF rest1 rest2]
  have fst_eq: "fst (serve (Some ?s) (r # rs))
      = handler e (Some ?s) ev # fst (serve (Some \<lparr>count = c + 1, lastReset = d\<rparr>) rs)"
    using r st by (simp split: prod.splits)
  have snd_eq: "snd (serve (Some ?s) (r # rs)) = snd (serve (Some \<lparr>count = c + 1, lastReset = d\<rparr>) rs)"
    using r st by (simp split: prod.splits)
  have a: "snd (serve (Some ?s) (r # rs)) = Some \<lparr>count = c + length (r # rs), lastReset = d\<rparr>"
    using IH snd_eq by simp
  have c: "\<forall>k < length (r # rs). \<exists>tr.
             trace (fst (serve (Some ?s) (r # rs)) ! k)
               = CounterUpdated \<lparr>count = c + k + 1, lastReset = d\<rparr> # tr
             \<and> \<not> list_ex isCounterUpdated tr"
  proof (intro allI impI)
    fix k assume k: "k < length (r # rs)"
    show "\<exists>tr. trace (fst (serve (Some ?s) (r # rs)) ! k)
               = CounterUpdated \<lparr>count = c + k + 1, lastReset = d\<rparr> # tr
             \<and> \<not> list_ex isCounterUpdated tr"
    proof (cases k)
      case 0
      then show ?thesis using tr0 fst_eq by simp
    next
      case (Suc j)
      then have "j < length rs" using k by simp
      then show ?thesis using IH Suc fst_eq by simp
    qed
  qed
  show ?case using a c by blast
qed

lemma getProp_defined:
  assumes "scene \<noteq> JNull" and "scene \<noteq> JUndefined"
  shows "\<exists>v. getProp scene k = Inr v"
  using assms by (cases scene) simp_all

lemma scenePrompt_callable:
  assumes "sceneCallable scene"
  shows "scenePrompt scene = Inr (promptOf scene)"
proof -
  obtain prompt where p: "getProp scene ''description'' = Inr prompt"
    using getProp_defined [of scene] assms by (auto simp: sceneCallable_def)
  then show ?thesis
    using assms by (simp add: scenePrompt_def sceneCallable_def promptOf_def bindE_def interpolate_def)
qed

lemma scenePrompt_not_callable:
  assumes "\<not> sceneCallable scene"
  shows "scenePrompt scene = Inl TypeErrorText"
proof (cases "getProp scene ''description''")
  case (Inl err)
  then have "err = TypeErrorText" by (cases scene) simp_all
  then show ?thesis using Inl by (simp add: scenePrompt_def bindE_def)
next
  case (Inr prompt)
  then have "scene \<noteq> JNull" and "scene \<noteq> JUndefined" by auto
  then have "\<not> stringifiable prompt"
    using assms Inr by (simp add: sceneCallable_def promptOf_def)
  then show ?thesis using Inr by (simp add: scenePrompt_def bindE_def interpolate_def)
qed

lemma sceneImage_defined:
  assumes "sceneCallable scene"
  shows "sceneImage e i scene =
           (Inr (if imageCallFailed (sceneCall e i scene) then JStr FAILED_URL
                 else resolvedReference (sceneCall e i scene)),
            [ImageCall i])"
proof -
  have p: "scenePrompt scene = Inr (promptOf scene)"
    using scenePrompt_callable [OF assms] .
  have "scene \<noteq> JNull" and "scene \<noteq> JUndefined"
    using assms by (simp_all add: sceneCallable_def)
  then obtain t where t: "getProp scene ''title'' = Inr t"
    using getProp_defined [of scene] by blast
  have call: "sceneCall e i scene = fetchImage e i (promptOf scene)"
    by (simp add: sceneCall_def)
  have thrown: "\<exists>err. bindE (getProp scene ''title'') (\<lambda>t. bindE (interpolate t) (\<lambda>_. Inl (ImageApiFailed t))) = Inl err"
    by (simp add: t bindE_def interpolate_def)
  show ?thesis
  proof (cases "fetchImage e i (promptOf scene)")
    case (Inl err)
    then show ?thesis
      by (simp add: sceneImage_def p call bindE_def imageCatch_def imageCallFailed_def)
  next
    case (Inr res)
    show ?thesis
    proof (cases "ok res")
      case False
      obtain err where "imageThenJson scene res = Inl err"
        using thrown False by (auto simp: imageThenJson_def)
      then show ?thesis
        using Inr False
        by (simp add: sceneImage_def p call bindE_def imageCatch_def imageCallFailed_def)
    next
      case True
      show ?thesis
      proof (cases "jsonBody res")
        case (Inl err)
        then show ?thesis
          using Inr True
          by (simp add: sceneImage_def p call bindE_def imageCatch_def imageCallFailed_def
                imageThenJson_def)
      next
        case data: (Inr data)
        show ?thesis
          using Inr True data
          by (cases data)
             (simp_all add: sceneImage_def p call bindE_def imageCatch_def imageCallFailed_def
                imageThenJson_def imageThenUrl_def resolvedReference_def split: option.splits)
      qed
    qed
  qed
qed

lemma sceneImage_order: "sceneImage (e\<lparr>settleOrder := order\<rparr>) i scene = sceneImage e i scene"
  by (simp add: sceneImage_def split: sum.splits)

lemma mapScenes_order: "mapScenes (e\<lparr>settleOrder := order\<rparr>) i scenes = mapScenes e i scenes"
  by (induction scenes arbitrary: i) (simp_all add: sceneImage_order split: sum.splits prod.splits)

lemma mapScenes_defined:
  assumes "\<forall>scene \<in> set scenes. sceneCallable scene"
  shows "\<exists>vs. mapScenes e i scenes = (Inr vs, map ImageCall [i..<i + length scenes])
           \<and> length vs = length scenes
           \<and> (\<forall>k < length scenes. fst (sceneImage e (i + k) (scenes ! k)) = Inr (vs ! k))"
  using assms
proof (induction scenes arbitrary: i)
  case Nil
  then show ?case by simp
next
  case (Cons scene rest)
  obtain v where v: "sceneImage e i scene = (Inr v, [ImageCall i])"
    using sceneImage_defined [of scene e i] Cons.prems by auto
  obtain vs where vs: "mapScenes e (Suc i) rest = (Inr vs, map ImageCall [Suc i..<Suc i + length rest])"
    "length vs = length rest"
    "\<forall>k < length rest. fst (sceneImage e (Suc i + k) (rest ! k)) = Inr (vs ! k)"
    using Cons.IH [of "Suc i"] Cons.prems by auto
  have upt: "[i..<i + length (scene # rest)] = i # [Suc i..<Suc i + length rest]"
    using upt_conv_Cons [of i "i + length (scene # rest)"] by simp
  have "mapScenes e i (scene # rest) = (Inr (v # vs), map ImageCall [i..<i + length (scene # rest)])"
    unfolding upt using v vs(1) by simp
  moreover have "length (v # vs) = length (scene # rest)"
    using vs(2) by simp
  moreover have "\<forall>k < length (scene # rest).
      fst (sceneImage e (i + k) ((scene # rest) ! k)) = Inr ((v # vs) ! k)"
  proof (intro allI impI)
    fix k assume "k < length (scene # rest)"
    then show "fst (sceneImage e (i + k) ((scene # rest) ! k)) = Inr ((v # vs) ! k)"
      using v vs(3) by (cases k) simp_all
  qed
  ultimately show ?case by blast
qed

lemma mapScenes_throws:
  assumes "\<not> list_all sceneCallable scenes"
  shows "fst (mapScenes e i scenes) = Inl TypeErrorText"
  using assms
proof (induction scenes arbitrary: i)
  case Nil
  then show ?case by simp
next
  case (Cons scene rest)
  show ?case
  proof (cases "sceneCallable scene")
    case False
    then show ?thesis
      using scenePrompt_not_callable [of scene] by (simp add: sceneImage_def)
  next
    case True
    then have "\<not> list_all sceneCallable rest" using Cons.prems by simp
    then have "fst (mapScenes e (Suc i) rest) = Inl TypeErrorText"
      using Cons.IH by blast
    then show ?thesis
      using sceneImage_defined [OF True, of e i]
      by (cases "mapScenes e (Suc i) rest") (simp split: sum.splits)
  qed
qed

lemma fold_slots_length:
  "length (fold (\<lambda>i acc. if i < n then acc[i := Some (vs ! i)] else acc) order acc) = length acc"
  by (induction order arbitrary: acc) simp_all

lemma fold_slots_nth:
  assumes "j < length acc"
  shows "fold (\<lambda>i acc. if i < n then acc[i := Some (vs ! i)] else acc) order acc ! j
           = (if j \<in> set order \<and> j < n then Some (vs ! j) else acc ! j)"
  using assms
proof (induction order arbitrary: acc)
  case Nil
  then show ?case by simp
next
  case (Cons i order)
  show ?case
  proof (cases "i < n")
    case True
    have "fold (\<lambda>i acc. if i < n then acc[i := Some (vs ! i)] else acc) (i # order) acc ! j
           = fold (\<lambda>i acc. if i < n then acc[i := Some (vs ! i)] else acc) order (acc[i := Some (vs ! i)]) ! j"
      using True by simp
    also have "\<dots> = (if j \<in> set order \<and> j < n then Some (vs ! j) else acc[i := Some (vs ! i)] ! j)"
      using Cons.IH [of "acc[i := Some (vs ! i)]"] Cons.prems by simp
    also have "\<dots> = (if j \<in> set (i # order) \<and> j < n then Some (vs ! j) else acc ! j)"
      using True Cons.prems by (simp add: nth_list_update)
    finally show ?thesis .
  next
    case False
    then show ?thesis
      using Cons.IH [of acc] Cons.prems by auto
  qed
qed

lemma promiseAll_settled:
  assumes "\<forall>i < length vs. i \<in> set order"
  shows "promiseAll order vs = Some vs"
proof -
  define slots where "slots = fold (\<lambda>i acc. if i < length vs then acc[i := Some (vs ! i)] else acc)
                  order (replicate (length vs) None)"
  have len: "length slots = length vs"
    unfolding slots_def by (simp add: fold_slots_length)
  have nth: "slots ! j = Some (vs ! j)" if "j < length vs" for j
    unfolding slots_def
    using fold_slots_nth [of j "replicate (length vs) None" "length vs" vs order] that assms
    by simp
  have eq: "slots = map Some vs"
  proof (rule nth_equalityI)
    show "length slots = length (map Some vs)" using len by simp
  next
    fix j assume "j < length slots"
    then show "slots ! j = map Some vs ! j" using nth len by simp
  qed
  have "promiseAll order vs = (if list_all (\<lambda>s. s \<noteq> None) slots then Some (map the slots) else None)"
    unfolding promiseAll_def slots_def Let_def ..
  also have "\<dots> = Some vs"
    by (simp add: eq list_all_iff comp_def)
  finally show ?thesis .
qed

lemma promiseAll_pending:
  assumes "i < length vs" and "i \<notin> set order"
  shows "promiseAll order vs = None"
proof -
  define slots where "slots = fold (\<lambda>i acc. if i < length vs then acc[i := Some (vs ! i)] else acc)
                  order (replicate (length vs) None)"
  have len: "length slots = length vs"
    unfolding slots_def by (simp add: fold_slots_length)
  have "slots ! i = None"
    unfolding slots_def
    using fold_slots_nth [of i "replicate (length vs) None" "length vs" vs order] assms
    by simp
  moreover have "slots ! i \<in> set slots"
    using len assms(1) by simp
  ultimately have "None \<in> set slots" by simp
  then have no: "\<not> list_all (\<lambda>s. s \<noteq> None) slots"
    by (auto simp: list_all_iff)
  have "promiseAll order vs = (if list_all (\<lambda>s. s \<noteq> None) slots then Some (map the slots) else None)"
    unfolding promiseAll_def slots_def Let_def ..
  then show ?thesis using no by simp
qed

text \<open>
  A scene for which no request can be sent makes the callback of \<open>script.map\<close> throw,
  and generateImages rejects as a whole: a \<open>null\<close> scene, which generateScript lets
  through, or a \<open>description\<close> that does not convert to a string.
\<close>

lemma generateImages_rejects:
  assumes "\<not> list_all sceneCallable script"
  shows "fst (generateImages e script) = Some (Inl TypeErrorText)"
  using mapScenes_throws [OF assms, of e 0]
  by (cases "mapScenes e 0 script") (simp add: generateImages_def split: sum.splits)

lemma generateImages_null_scene:
  "generateImages e [JNull] = (Some (Inl TypeErrorText), [])"
  by (simp add: generateImages_def sceneImage_def scenePrompt_def bindE_def)

lemma generateImages_unprintable_description:
  "generateImages e [JObj [(''description'', JObj [(''toString'', JNum (Finite 1))])]]
     = (Some (Inl TypeErrorText), [])"
  by (simp add: generateImages_def sceneImage_def scenePrompt_def bindE_def interpolate_def)

lemma sceneShaped_callable:
  assumes "isSceneShaped scene"
  shows "sceneCallable scene"
proof (cases scene)
  case (JObj kvs)
  then obtain d where "map_of kvs ''description'' = Some (JStr d)"
    using assms by (auto simp: isSceneShaped_def split: option.splits jsval.splits)
  then show ?thesis
    using JObj by (simp add: sceneCallable_def promptOf_def)
qed (use assms in \<open>simp_all add: isSceneShaped_def\<close>)

lemma generateImages_defined:
  assumes "\<forall>scene \<in> set script. sceneCallable scene"
    and "\<forall>i < length script. i \<in> set (settleOrder e)"
  shows "\<exists>images.
           generateImages e script = (Some (Inr images), map ImageCall [0..<length script])
         \<and> length images = length script
         \<and> (\<forall>i < length script. fst (sceneImage e i (script ! i)) = Inr (images ! i))
         \<and> (\<forall>i < length script.
               images ! i = (if imageCallFailed (sceneCall e i (script ! i)) then JStr FAILED_URL
                             else resolvedReference (sceneCall e i (script ! i))))
         \<and> (\<forall>order. (\<forall>i < length script. i \<in> set order) \<longrightarrow>
               fst (generateImages (e\<lparr>settleOrder := order\<rparr>) script) = Some (Inr images))"
proof -
  obtain vs where vs: "mapScenes e 0 script = (Inr vs, map ImageCall [0..<0 + length script])"
    "length vs = length script"
    "\<forall>k < length script. fst (sceneImage e (0 + k) (script ! k)) = Inr (vs ! k)"
    using mapScenes_defined [OF assms(1), of e 0] by blast
  have all: "promiseAll order vs = Some vs" if "\<forall>i < length script. i \<in> set order" for order
    using promiseAll_settled [of vs order] that vs(2) by simp
  have "generateImages e script = (Some (Inr vs), map ImageCall [0..<length script])"
    using vs(1) all [OF assms(2)] by (simp add: generateImages_def)
  moreover have "fst (generateImages (e\<lparr>settleOrder := order\<rparr>) script) = Some (Inr vs)"
    if "\<forall>i < length script. i \<in> set order" for order
    using vs(1) all [OF that] by (simp add: generateImages_def mapScenes_order)
  moreover have "vs ! i = (if imageCallFailed (sceneCall e i (script ! i)) then JStr FAILED_URL
                             else resolvedReference (sceneCall e i (script ! i)))"
    if "i < length script" for i
  proof -
    have "sceneCallable (script ! i)"
      using assms(1) that by simp
    then have "fst (sceneImage e i (script ! i))
        = Inr (if imageCallFailed (sceneCall e i (script ! i)) then JStr FAILED_URL
               else resolvedReference (sceneCall e i (script ! i)))"
      using sceneImage_defined [of "script ! i" e i] by simp
    moreover have "fst (sceneImage e i (script ! i)) = Inr (vs ! i)"
      using vs(3) that by simp
    ultimately have "Inr (vs ! i)
        = (Inr (if imageCallFailed (sceneCall e i (script ! i)) then JStr FAILED_URL
                else resolvedReference (sceneCall e i (script ! i))) :: message + jsval)"
      by simp
    then show ?thesis by (simp only: sum.inject)
  qed
  ultimately show ?thesis
    using vs(2,3) by auto
qed

lemma bindE_assoc: "bindE (bindE r f) h = bindE r (\<lambda>x. bindE (f x) h)"
  by (simp add: bindE_def split: sum.splits)

lemma extractScript_parsedScript:
  "extractScript e data =
     (case parsedScript e data of
        Some scenes \<Rightarrow> Inr scenes
      | None \<Rightarrow>
          (case extractScript e data of Inl err \<Rightarrow> Inl err | Inr _ \<Rightarrow> Inl ScriptInvalidInner))"
proof -
  have step: "extractScript e data =
     bindE (candidateText data) (\<lambda>t.
     bindE (JSON_parse e t) (\<lambda>result.
     bindE (getProp result ''script'') (\<lambda>s.
       if \<not> truthy s \<or> \<not> isArray s then Inl ScriptInvalidInner
       else (case s of JArr scenes \<Rightarrow> Inr scenes | _ \<Rightarrow> Inl ScriptInvalidInner))))"
    by (simp add: extractScript_def candidateText_def bindE_assoc)
  show ?thesis
  proof (cases "candidateText data")
    case (Inl err)
    then show ?thesis by (simp add: step parsedScript_def bindE_def)
  next
    case t: (Inr t)
    show ?thesis
    proof (cases "JSON_parse e t")
      case (Inl err)
      then show ?thesis using t by (simp add: step parsedScript_def bindE_def)
    next
      case r: (Inr result)
      show ?thesis
      proof (cases "getProp result ''script''")
        case (Inl err)
        then show ?thesis using t r by (simp add: step parsedScript_def bindE_def)
      next
        case (Inr s)
        then show ?thesis using t r
          by (cases s) (simp_all add: step parsedScript_def bindE_def)
      qed
    qed
  qed
qed

lemma extractScript_cases:
  "(\<exists>scenes. parsedScript e data = Some scenes \<and> extractScript e data = Inr scenes)
   \<or> (parsedScript e data = None \<and> (\<exists>err. extractScript e data = Inl err))"
  using extractScript_parsedScript [of e data]
  by (cases "parsedScript e data"; cases "extractScript e data") auto

lemma no_gemini_in_images:
  "filter (\<lambda>x. x = GeminiCall) (snd (generateImages e script)) = []"
  using generateImages_trace [of e script]
  by (auto simp: filter_empty_conv)

lemma gemini_call_once:
  "length (filter (\<lambda>x. x = GeminiCall) (trace (handler e g ev))) \<le> 1"
  by (simp add: handler_defs no_gemini_in_images generateScript_trace split: sum.splits prod.splits)


section \<open>Rejection at the limit\<close>

text \<open>
  Claim C2. A POST request that finds the counter (after the reset of a new day, if any)
  at or above GLOBAL_DAILY_LIMIT is answered with status 429 and an error body; the
  global counter is left exactly as it was, and neither updateCounterState nor any
  upstream call happens. (A reset state has count 0, so the hypothesis holds only for a
  counter stored on the same day.)
\<close>

theorem C2_rejection_is_mutation_free:
  assumes "httpMethod ev = ''POST''"
    and "GLOBAL_DAILY_LIMIT \<le> count (effectiveState e g)"
  shows "handler e g ev =
           \<lparr>reply = Some \<lparr>statusCode = 429, respBody = ErrorBody LimitReached\<rparr>,
            store = g, trace = []\<rparr>"
proof -
  have "g \<noteq> None"
  proof
    assume "g = None"
    then have "count (effectiveState e g) = 0"
      by (simp add: effectiveState_None)
    then show False
      using assms(2) by (simp add: GLOBAL_DAILY_LIMIT_def)
  qed
  then obtain s where "g = Some s" by auto
  then show ?thesis
    using handler_rejected [OF assms] by (simp add: getCounterState_def)
qed

text \<open>The specification's example: count 50 on the same day stays 50.\<close>

theorem C2_witness:
  "httpMethod (post requestText) = ''POST''
   \<and> GLOBAL_DAILY_LIMIT
       \<le> count (effectiveState exampleEnv (Some \<lparr>count = 50, lastReset = ''2024-05-01''\<rparr>))
   \<and> handler exampleEnv (Some \<lparr>count = 50, lastReset = ''2024-05-01''\<rparr>) (post requestText)
       = \<lparr>reply = Some \<lparr>statusCode = 429, respBody = ErrorBody LimitReached\<rparr>,
          store = Some \<lparr>count = 50, lastReset = ''2024-05-01''\<rparr>, trace = []\<rparr>"
  using C2_rejection_is_mutation_free
    [of "post requestText" exampleEnv "Some \<lparr>count = 50, lastReset = ''2024-05-01''\<rparr>"]
  by (simp add: effectiveState_Some GLOBAL_DAILY_LIMIT_def exampleEnv_def post_def)

section \<open>A body that is not JSON\<close>

text \<open>
  Claim C10. A POST request below the limit whose body \<open>JSON.parse\<close> refuses is answered
  with status 500 (not 400) and an error body carrying the parser's message (or the
  default text when that message is empty). updateCounterState is not called and no
  upstream call is made: the global counter is what getCounterState left, that is, the
  stored state itself, or the fresh state of count 0 when none was stored.
\<close>

theorem C10_unparseable_body_is_500:
  assumes "httpMethod ev = ''POST''"
    and "count (effectiveState e g) < GLOBAL_DAILY_LIMIT"
    and "JSON_parse e (body ev) = Inl err"
  shows "handler e g ev =
           \<lparr>reply = Some \<lparr>statusCode = 500, respBody = ErrorBody (messageOrDefault err)\<rparr>,
            store = snd (getCounterState (initDate e) g), trace = []\<rparr>"
  using handler_parse_error [OF assms(1,2), of err] assms(3)
  by (simp add: parseBody_def bindE_def)

theorem C10_witness:
  "httpMethod (post brokenText) = ''POST''
   \<and> count (effectiveState exampleEnv (Some \<lparr>count = 10, lastReset = ''2024-05-01''\<rparr>))
       < GLOBAL_DAILY_LIMIT
   \<and> JSON_parse exampleEnv (body (post brokenText)) = Inl (Other ''Unexpected token'')
   \<and> handler exampleEnv (Some \<lparr>count = 10, lastReset = ''2024-05-01''\<rparr>) (post brokenText)
       = \<lparr>reply = Some \<lparr>statusCode = 500, respBody = ErrorBody (Other ''Unexpected token'')\<rparr>,
          store = Some \<lparr>count = 10, lastReset = ''2024-05-01''\<rparr>, trace = []\<rparr>"
  using C10_unparseable_body_is_500
    [of "post brokenText" exampleEnv "Some \<lparr>count = 10, lastReset = ''2024-05-01''\<rparr>"
        "Other ''Unexpected token''"]
  by (simp add: effectiveState_Some getCounterState_Some GLOBAL_DAILY_LIMIT_def example_defs
        messageOrDefault_def)

lemma map_of_withoutKey: "map_of (withoutKey k kvs) k = None"
  by (auto simp: withoutKey_def map_of_eq_None_iff)

section \<open>Missing fields\<close>




text \<open>
  Claim C9. The check of line 225 tests truthiness: below the limit, a POST request whose
  parsed body has \<open>idea\<close> equal to the empty string, or \<open>duration\<close> equal to 0, is
  answered 400 with the same outcome as the request whose body lacks that property.
\<close>

theorem C9_falsy_field_as_absent:
  assumes "httpMethod ev = ''POST''" and "httpMethod ev' = ''POST''"
    and "count (effectiveState e g) < GLOBAL_DAILY_LIMIT"
    and "JSON_parse e (body ev) = Inr (JObj kvs)"
    and "JSON_parse e (body ev') = Inr (JObj (withoutKey k kvs))"
    and "(k = ''idea'' \<and> map_of kvs ''idea'' = Some (JStr []))
         \<or> (k = ''duration'' \<and> map_of kvs ''duration'' = Some (JNum (Finite 0)))"
  shows "handler e g ev =
           \<lparr>reply = Some \<lparr>statusCode = 400, respBody = ErrorBody FieldsRequired\<rparr>,
            store = snd (getCounterState (initDate e) g), trace = []\<rparr>
         \<and> handler e g ev' = handler e g ev"
proof -
  let ?out = "\<lparr>reply = Some \<lparr>statusCode = 400, respBody = ErrorBody FieldsRequired\<rparr>,
               store = snd (getCounterState (initDate e) g), trace = []\<rparr>"
  obtain idea duration where p: "parseBody e (body ev) = Inr (idea, duration)"
    and f: "\<not> truthy idea \<or> \<not> truthy duration"
    using assms(4,6) by (auto simp: parseBody_def bindE_def)
  obtain idea' duration' where p': "parseBody e (body ev') = Inr (idea', duration')"
    and f': "\<not> truthy idea' \<or> \<not> truthy duration'"
    using assms(5,6) map_of_withoutKey [of k kvs] by (auto simp: parseBody_def bindE_def)
  have "handler e g ev = ?out"
    using handler_invalid [OF assms(1,3) p f] .
  moreover have "handler e g ev' = ?out"
    using handler_invalid [OF assms(2,3) p' f'] .
  ultimately show ?thesis by simp
qed

theorem C9_witness:
  "JSON_parse exampleEnv (body (post emptyIdeaText))
     = Inr (JObj [(''idea'', JStr []), (''duration'', JNum (Finite 30))])
   \<and> JSON_parse exampleEnv (body (post noIdeaText))
     = Inr (JObj (withoutKey ''idea'' [(''idea'', JStr []), (''duration'', JNum (Finite 30))]))
   \<and> handler exampleEnv (Some \<lparr>count = 10, lastReset = ''2024-05-01''\<rparr>) (post emptyIdeaText)
       = \<lparr>reply = Some \<lparr>statusCode = 400, respBody = ErrorBody FieldsRequired\<rparr>,
          store = Some \<lparr>count = 10, lastReset = ''2024-05-01''\<rparr>, trace = []\<rparr>
   \<and> handler exampleEnv (Some \<lparr>count = 10, lastReset = ''2024-05-01''\<rparr>) (post noIdeaText)
       = handler exampleEnv (Some \<lparr>count = 10, lastReset = ''2024-05-01''\<rparr>) (post emptyIdeaText)"
  using C9_falsy_field_as_absent
    [of "post emptyIdeaText" "post noIdeaText" exampleEnv
        "Some \<lparr>count = 10, lastReset = ''2024-05-01''\<rparr>"
        "[(''idea'', JStr []), (''duration'', JNum (Finite 30))]" "''idea''"]
  by (simp add: effectiveState_Some getCounterState_Some GLOBAL_DAILY_LIMIT_def example_defs
        withoutKey_def)

section \<open>The reset of a new day\<close>

text \<open>
  Claim C3. When the stored \<open>lastReset\<close> differs from today's date in any way (one day
  or many), a POST request sees the state of count 0 dated today, whatever the stored
  count was: it is never answered 429; it is admitted exactly when its body parses into
  a truthy \<open>idea\<close> and \<open>duration\<close>, and then the state stored is count 1 dated today.
  The reset itself is not stored: a request that is not admitted leaves the old state in
  the global, to be reset again by the next request. Nothing but a request changes the
  counter.
\<close>

theorem C3_lazy_day_reset:
  assumes "httpMethod ev = ''POST''" and "lastReset s \<noteq> today e"
  shows "effectiveState e (Some s) = \<lparr>count = 0, lastReset = today e\<rparr>
       \<and> (\<forall>r. reply (handler e (Some s) ev) = Some r \<longrightarrow> statusCode r \<noteq> 429)
       \<and> (admitted (handler e (Some s) ev) \<longleftrightarrow>
            (\<exists>idea duration. parseBody e (body ev) = Inr (idea, duration)
                \<and> truthy idea \<and> truthy duration))
       \<and> store (handler e (Some s) ev) =
            (if admitted (handler e (Some s) ev) then Some \<lparr>count = 1, lastReset = today e\<rparr>
             else Some s)"
proof -
  have eff: "effectiveState e (Some s) = \<lparr>count = 0, lastReset = today e\<rparr>"
    using assms(2) by (simp add: effectiveState_Some)
  have lt: "count (effectiveState e (Some s)) < GLOBAL_DAILY_LIMIT"
    by (simp add: eff GLOBAL_DAILY_LIMIT_def)
  have adm: "admitted (handler e (Some s) ev) \<longleftrightarrow>
            (\<exists>idea duration. parseBody e (body ev) = Inr (idea, duration)
                \<and> truthy idea \<and> truthy duration)"
    using admitted_iff [OF assms(1), of e "Some s"] lt by simp
  have st: "\<forall>r. reply (handler e (Some s) ev) = Some r \<longrightarrow> statusCode r \<noteq> 429"
    using assms(1) lt
    by (auto simp: handler_defs split: sum.splits option.splits)
  have sto: "store (handler e (Some s) ev) =
            (if admitted (handler e (Some s) ev) then Some \<lparr>count = 1, lastReset = today e\<rparr>
             else Some s)"
    unfolding adm using assms(1) lt
    by (auto simp: handler_defs eff getCounterState_Some split: sum.splits)
  show ?thesis using eff st adm sto by blast
qed

theorem C3_witness:
  "httpMethod (post requestText) = ''POST''
   \<and> lastReset \<lparr>count = 50, lastReset = ''2024-04-24''\<rparr> \<noteq> today exampleEnv
   \<and> admitted (handler exampleEnv (Some \<lparr>count = 50, lastReset = ''2024-04-24''\<rparr>) (post requestText))
   \<and> store (handler exampleEnv (Some \<lparr>count = 50, lastReset = ''2024-04-24''\<rparr>) (post requestText))
       = Some \<lparr>count = 1, lastReset = ''2024-05-01''\<rparr>"
proof -
  have h1: "httpMethod (post requestText) = ''POST''" by (simp add: post_def)
  have h2: "lastReset \<lparr>count = 50, lastReset = ''2024-04-24''\<rparr> \<noteq> today exampleEnv"
    by (simp add: exampleEnv_def)
  note th = C3_lazy_day_reset [OF h1 h2]
  have adm: "admitted (handler exampleEnv (Some \<lparr>count = 50, lastReset = ''2024-04-24''\<rparr>)
               (post requestText))"
    using th example_parseBody by simp
  have "today exampleEnv = ''2024-05-01''" by (simp add: exampleEnv_def)
  then show ?thesis using th adm h1 h2 by simp
qed

section \<open>The counter after a failure of generateScript\<close>

text \<open>
  Claim C5. An admitted request (POST, below the limit, truthy \<open>idea\<close> and
  \<open>duration\<close>) stores the incremented state, and its trace starts with that one call of
  updateCounterState, followed by upstream requests only: the increment is stored exactly
  once and before every upstream call. When generateScript fails, whether before its
  request is sent (the prompt cannot be built) or after, the response is 500 with the
  error's message, the global still holds the incremented state, and the trace is the
  update followed by what generateScript did.
\<close>

theorem C5_quota_consumed_on_script_failure:
  assumes "httpMethod ev = ''POST''"
    and "count (effectiveState e g) < GLOBAL_DAILY_LIMIT"
    and "parseBody e (body ev) = Inr (idea, duration)"
    and "truthy idea" and "truthy duration"
  shows "store (handler e g ev)
           = Some ((effectiveState e g)\<lparr>count := count (effectiveState e g) + 1\<rparr>)
       \<and> (\<exists>tr. trace (handler e g ev)
                 = CounterUpdated ((effectiveState e g)\<lparr>count := count (effectiveState e g) + 1\<rparr>) # tr
               \<and> \<not> list_ex isCounterUpdated tr)
       \<and> (\<forall>err. fst (generateScript e idea duration) = Inl err \<longrightarrow>
             handler e g ev =
               \<lparr>reply = Some \<lparr>statusCode = 500, respBody = ErrorBody (messageOrDefault err)\<rparr>,
                store = Some ((effectiveState e g)\<lparr>count := count (effectiveState e g) + 1\<rparr>),
                trace = CounterUpdated ((effectiveState e g)\<lparr>count := count (effectiveState e g) + 1\<rparr>)
                          # snd (generateScript e idea duration)\<rparr>)"
proof -
  have "\<forall>err. fst (generateScript e idea duration) = Inl err \<longrightarrow>
             handler e g ev =
               \<lparr>reply = Some \<lparr>statusCode = 500, respBody = ErrorBody (messageOrDefault err)\<rparr>,
                store = Some ((effectiveState e g)\<lparr>count := count (effectiveState e g) + 1\<rparr>),
                trace = CounterUpdated ((effectiveState e g)\<lparr>count := count (effectiveState e g) + 1\<rparr>)
                          # snd (generateScript e idea duration)\<rparr>"
    using assms by (simp add: handler_defs)
  then show ?thesis
    using handler_admitted [OF assms] by blast
qed

text \<open>
  Two failures on a day with the counter at 10: Gemini answers with an error status, and
  the body \<open>{"idea":{"toString":1},"duration":30}\<close>, whose \<open>idea\<close> cannot be written into
  the prompt, so that no request is sent. Both leave the counter at 11.
\<close>

theorem C5_witness:
  "handler geminiDownEnv (Some \<lparr>count = 10, lastReset = ''2024-05-01''\<rparr>) (post requestText)
       = \<lparr>reply = Some \<lparr>statusCode = 500, respBody = ErrorBody ScriptUpstreamFailed\<rparr>,
          store = Some \<lparr>count = 11, lastReset = ''2024-05-01''\<rparr>,
          trace = [CounterUpdated \<lparr>count = 11, lastReset = ''2024-05-01''\<rparr>, GeminiCall]\<rparr>
   \<and> handler exampleEnv (Some \<lparr>count = 10, lastReset = ''2024-05-01''\<rparr>) (post unprintableIdeaText)
       = \<lparr>reply = Some \<lparr>statusCode = 500, respBody = ErrorBody TypeErrorText\<rparr>,
          store = Some \<lparr>count = 11, lastReset = ''2024-05-01''\<rparr>,
          trace = [CounterUpdated \<lparr>count = 11, lastReset = ''2024-05-01''\<rparr>]\<rparr>"
proof -
  let ?g = "Some \<lparr>count = 10, lastReset = ''2024-05-01''\<rparr>"
  have h1: "httpMethod (post requestText) = ''POST''"
    and k1: "httpMethod (post unprintableIdeaText) = ''POST''"
    by (simp_all add: post_def)
  have eff: "effectiveState geminiDownEnv ?g = \<lparr>count = 10, lastReset = ''2024-05-01''\<rparr>"
    and eff': "effectiveState exampleEnv ?g = \<lparr>count = 10, lastReset = ''2024-05-01''\<rparr>"
    by (simp_all add: effectiveState_Some geminiDownEnv_def exampleEnv_def)
  have h2: "count (effectiveState geminiDownEnv ?g) < GLOBAL_DAILY_LIMIT"
    and k2: "count (effectiveState exampleEnv ?g) < GLOBAL_DAILY_LIMIT"
    by (simp_all add: eff eff' GLOBAL_DAILY_LIMIT_def)
  have h3: "parseBody geminiDownEnv (body (post requestText))
              = Inr (JStr ''a robot learns to paint'', JNum (Finite 30))"
    by (simp add: parseBody_def bindE_def geminiDownEnv_def example_defs)
  have k3: "parseBody exampleEnv (body (post unprintableIdeaText))
              = Inr (JObj [(''toString'', JNum (Finite 1))], JNum (Finite 30))"
    by (simp add: parseBody_def bindE_def example_defs)
  have h4: "truthy (JStr ''a robot learns to paint'')" and h5: "truthy (JNum (Finite 30))"
    and k4: "truthy (JObj [(''toString'', JNum (Finite 1))])"
    by simp_all
  have k6: "generateScript exampleEnv (JObj [(''toString'', JNum (Finite 1))]) (JNum (Finite 30))
              = (Inl TypeErrorText, [])"
    by (simp add: generateScript_def buildPrompt_def interpolate_def bindE_def)
  have a: "handler geminiDownEnv ?g (post requestText)
       = \<lparr>reply = Some \<lparr>statusCode = 500, respBody = ErrorBody ScriptUpstreamFailed\<rparr>,
          store = Some \<lparr>count = 11, lastReset = ''2024-05-01''\<rparr>,
          trace = [CounterUpdated \<lparr>count = 11, lastReset = ''2024-05-01''\<rparr>, GeminiCall]\<rparr>"
    using C5_quota_consumed_on_script_failure [OF h1 h2 h3 h4 h5] geminiDown_generateScript
    by (simp add: eff messageOrDefault_def)
  have b: "handler exampleEnv ?g (post unprintableIdeaText)
       = \<lparr>reply = Some \<lparr>statusCode = 500, respBody = ErrorBody TypeErrorText\<rparr>,
          store = Some \<lparr>count = 11, lastReset = ''2024-05-01''\<rparr>,
          trace = [CounterUpdated \<lparr>count = 11, lastReset = ''2024-05-01''\<rparr>]\<rparr>"
    using C5_quota_consumed_on_script_failure [OF k1 k2 k3 k4 h5] k6
    by (simp add: eff' messageOrDefault_def)
  show ?thesis using a b by simp
qed

section \<open>Admitted requests of one day\<close>

text \<open>
  Claim C1. Let requests be served one after the other on the day \<open>d\<close>, starting from
  the stored state of count \<open>c\<close> dated \<open>d\<close>, and let all \<open>N\<close> of them be admitted.
  Then the counter stored at the end is exactly \<open>c + N\<close>; request number \<open>k\<close> stores
  the count \<open>c + k + 1\<close>, one more than it found, in a single call of updateCounterState
  that comes first in its trace, before every request it sends to Gemini or to the image
  API; and when \<open>c + N\<close> equals
  GLOBAL_DAILY_LIMIT, the next POST request of that day is answered 429 and leaves the
  counter where it is.
\<close>

theorem C1_admission_monotonicity:
  assumes "\<forall>(e, ev) \<in> set rs. today e = d"
    and "list_all admitted (fst (serve (Some \<lparr>count = c, lastReset = d\<rparr>) rs))"
  shows "snd (serve (Some \<lparr>count = c, lastReset = d\<rparr>) rs)
           = Some \<lparr>count = c + length rs, lastReset = d\<rparr>
       \<and> (\<forall>k < length rs. \<exists>tr.
             trace (fst (serve (Some \<lparr>count = c, lastReset = d\<rparr>) rs) ! k)
               = CounterUpdated \<lparr>count = c + k + 1, lastReset = d\<rparr> # tr
             \<and> \<not> list_ex isCounterUpdated tr)
       \<and> (c + length rs = GLOBAL_DAILY_LIMIT \<longrightarrow>
            (\<forall>e ev. today e = d \<and> httpMethod ev = ''POST'' \<longrightarrow>
               handler e (snd (serve (Some \<lparr>count = c, lastReset = d\<rparr>) rs)) ev
                 = \<lparr>reply = Some \<lparr>statusCode = 429, respBody = ErrorBody LimitReached\<rparr>,
                    store = Some \<lparr>count = c + length rs, lastReset = d\<rparr>, trace = []\<rparr>))"
proof -
  note run = serve_admitted [OF assms]
  have "handler e (Some \<lparr>count = c + length rs, lastReset = d\<rparr>) ev
          = \<lparr>reply = Some \<lparr>statusCode = 429, respBody = ErrorBody LimitReached\<rparr>,
             store = Some \<lparr>count = c + length rs, lastReset = d\<rparr>, trace = []\<rparr>"
    if "c + length rs = GLOBAL_DAILY_LIMIT" and "today e = d" and "httpMethod ev = ''POST''"
    for e ev
    using handler_rejected [OF that(3), of e "Some \<lparr>count = c + length rs, lastReset = d\<rparr>"] that(1,2)
    by (simp add: effectiveState_Some getCounterState_Some)
  then show ?thesis using run by simp
qed

theorem C1_witness:
  "list_all admitted
     (fst (serve (Some \<lparr>count = 48, lastReset = ''2024-05-01''\<rparr>)
        [(exampleEnv, post requestText), (exampleEnv, post requestText)]))
   \<and> snd (serve (Some \<lparr>count = 48, lastReset = ''2024-05-01''\<rparr>)
        [(exampleEnv, post requestText), (exampleEnv, post requestText)])
       = Some \<lparr>count = 50, lastReset = ''2024-05-01''\<rparr>
   \<and> handler exampleEnv (Some \<lparr>count = 50, lastReset = ''2024-05-01''\<rparr>) (post requestText)
       = \<lparr>reply = Some \<lparr>statusCode = 429, respBody = ErrorBody LimitReached\<rparr>,
          store = Some \<lparr>count = 50, lastReset = ''2024-05-01''\<rparr>, trace = []\<rparr>"
proof -
  let ?rs = "[(exampleEnv, post requestText), (exampleEnv, post requestText)]"
  have t: "today exampleEnv = ''2024-05-01''" by (simp add: exampleEnv_def)
  have m: "httpMethod (post requestText) = ''POST''" by (simp add: post_def)
  have h1: "\<forall>(e, ev) \<in> set ?rs. today e = ''2024-05-01''"
    by (simp add: t)
  have h2: "list_all admitted (fst (serve (Some \<lparr>count = 48, lastReset = ''2024-05-01''\<rparr>) ?rs))"
    by (simp add: example_handler admitted_def)
  note th = C1_admission_monotonicity [OF h1 h2]
  have fin: "snd (serve (Some \<lparr>count = 48, lastReset = ''2024-05-01''\<rparr>) ?rs)
       = Some \<lparr>count = 50, lastReset = ''2024-05-01''\<rparr>"
    using th [THEN conjunct1] by simp
  have full: "48 + length ?rs = GLOBAL_DAILY_LIMIT"
    by (simp add: GLOBAL_DAILY_LIMIT_def)
  have "handler exampleEnv (snd (serve (Some \<lparr>count = 48, lastReset = ''2024-05-01''\<rparr>) ?rs))
          (post requestText)
       = \<lparr>reply = Some \<lparr>statusCode = 429, respBody = ErrorBody LimitReached\<rparr>,
          store = Some \<lparr>count = 48 + length ?rs, lastReset = ''2024-05-01''\<rparr>, trace = []\<rparr>"
    using th [THEN conjunct2, THEN conjunct2, rule_format, OF full conjI [OF t m]] .
  then have "handler exampleEnv (Some \<lparr>count = 50, lastReset = ''2024-05-01''\<rparr>) (post requestText)
       = \<lparr>reply = Some \<lparr>statusCode = 429, respBody = ErrorBody LimitReached\<rparr>,
          store = Some \<lparr>count = 50, lastReset = ''2024-05-01''\<rparr>, trace = []\<rparr>"
    unfolding fin by simp
  then show ?thesis using h2 fin by simp
qed

section \<open>The images of a script\<close>

text \<open>
  Claim C6. Let a script have \<open>K\<close> scenes, each of them one for which a request can be
  sent (not \<open>null\<close>, with a \<open>description\<close> that converts to a string; every
  Scene-shaped record is one), and let the image promises all settle. Then
  generateImages is fulfilled with exactly \<open>K\<close> values, the one at index \<open>i\<close> being
  the value of scene \<open>i\<close> (the failure placeholder when the call of scene \<open>i\<close> failed,
  what that call resolved to otherwise), after one request per scene; it never rejects,
  whatever the requests settle with. The result does not depend on the order in which the promises
  settle: every order gives the same list.
\<close>

theorem C6_generateImages_total_and_aligned:
  assumes "\<forall>scene \<in> set script. sceneCallable scene"
    and "\<forall>i < length script. i \<in> set (settleOrder e)"
  shows "\<exists>images.
           generateImages e script = (Some (Inr images), map ImageCall [0..<length script])
         \<and> length images = length script
         \<and> (\<forall>i < length script. fst (sceneImage e i (script ! i)) = Inr (images ! i))
         \<and> (\<forall>i < length script.
               images ! i = (if imageCallFailed (sceneCall e i (script ! i)) then JStr FAILED_URL
                             else resolvedReference (sceneCall e i (script ! i))))
         \<and> (\<forall>order. (\<forall>i < length script. i \<in> set order) \<longrightarrow>
               fst (generateImages (e\<lparr>settleOrder := order\<rparr>) script) = Some (Inr images))"
  using generateImages_defined [OF assms] .

theorem C6_witness:
  "fst (generateImages exampleEnv exampleScript)
     = Some (Inr [JStr ''https://img.example/scene.png'', JStr FAILED_URL,
                  JStr ''https://img.example/scene.png''])
   \<and> fst (generateImages (exampleEnv\<lparr>settleOrder := [0, 1, 2]\<rparr>) exampleScript)
     = fst (generateImages exampleEnv exampleScript)
   \<and> snd (generateImages exampleEnv exampleScript) = [ImageCall 0, ImageCall 1, ImageCall 2]"
proof -
  have h1: "\<forall>scene \<in> set exampleScript. sceneCallable scene"
    by (simp add: exampleScript_def exampleScene_def sceneCallable_def promptOf_def)
  have h2: "\<forall>i < length exampleScript. i \<in> set (settleOrder exampleEnv)"
    by (auto simp: exampleScript_def exampleEnv_def less_Suc_eq)
  have h3: "\<forall>i < length exampleScript. i \<in> set [0, 1, 2 :: nat]"
    by (auto simp: exampleScript_def less_Suc_eq)
  obtain images where im: "generateImages exampleEnv exampleScript
        = (Some (Inr images), map ImageCall [0..<length exampleScript])"
    and ord: "\<forall>order. (\<forall>i < length exampleScript. i \<in> set order) \<longrightarrow>
               fst (generateImages (exampleEnv\<lparr>settleOrder := order\<rparr>) exampleScript) = Some (Inr images)"
    using C6_generateImages_total_and_aligned [OF h1 h2] by blast
  have "fst (generateImages (exampleEnv\<lparr>settleOrder := [0, 1, 2]\<rparr>) exampleScript)
          = fst (generateImages exampleEnv exampleScript)"
    using ord h3 im by simp
  then show ?thesis
    by (simp add: example_generateImages)
qed

text \<open>
  Claim C7. For an admitted request for which generateScript returns a script, each
  scene of it one for which a request can be sent (so that all \<open>K\<close> calls are made),
  and whose image promises all settle, the response is 200 with one image per scene. The
  image of a scene whose call failed (transport error, status that is not a success, or an error
  thrown while the response is processed) is the "generation failed" placeholder, and
  the image of any other scene is what its own call resolved to, the "image generated"
  placeholder when the payload has no \<open>imageUrl\<close>. So when exactly one call fails,
  that scene alone carries the failure placeholder.
\<close>

theorem C7_per_scene_failure_isolation:
  assumes "httpMethod ev = ''POST''"
    and "count (effectiveState e g) < GLOBAL_DAILY_LIMIT"
    and "parseBody e (body ev) = Inr (idea, duration)"
    and "truthy idea" and "truthy duration"
    and "fst (generateScript e idea duration) = Inr script"
    and "\<forall>scene \<in> set script. sceneCallable scene"
    and "\<forall>i < length script. i \<in> set (settleOrder e)"
  shows "\<exists>images.
           reply (handler e g ev) = Some \<lparr>statusCode = 200, respBody = ResultBody script images\<rparr>
         \<and> length images = length script
         \<and> (\<forall>i < length script.
               images ! i = (if imageCallFailed (sceneCall e i (script ! i)) then JStr FAILED_URL
                             else resolvedReference (sceneCall e i (script ! i))))
         \<and> (\<forall>i < length script. \<forall>res kvs.
               sceneCall e i (script ! i) = Inr res \<and> ok res \<and> jsonBody res = Inr (JObj kvs)
               \<and> map_of kvs ''imageUrl'' = None \<longrightarrow> images ! i = JStr GENERATED_URL)
         \<and> (\<forall>j < length script.
               (\<forall>i < length script. imageCallFailed (sceneCall e i (script ! i)) \<longleftrightarrow> i = j) \<longrightarrow>
               images ! j = JStr FAILED_URL
               \<and> (\<forall>i < length script. i \<noteq> j \<longrightarrow>
                     images ! i = resolvedReference (sceneCall e i (script ! i))))"
proof -
  obtain images where gi: "generateImages e script = (Some (Inr images), map ImageCall [0..<length script])"
    and len: "length images = length script"
    and al: "\<forall>i < length script. fst (sceneImage e i (script ! i)) = Inr (images ! i)"
    using generateImages_defined [OF assms(7,8)] by blast
  have rep: "reply (handler e g ev) = Some \<lparr>statusCode = 200, respBody = ResultBody script images\<rparr>"
    using assms(1-6) gi by (simp add: handler_defs)
  have each: "images ! i = (if imageCallFailed (sceneCall e i (script ! i)) then JStr FAILED_URL
                             else resolvedReference (sceneCall e i (script ! i)))"
    if "i < length script" for i
  proof -
    have "script ! i \<in> set script" using that by simp
    then have "sceneCallable (script ! i)"
      using assms(7) by auto
    then have "fst (sceneImage e i (script ! i))
        = Inr (if imageCallFailed (sceneCall e i (script ! i)) then JStr FAILED_URL
               else resolvedReference (sceneCall e i (script ! i)))"
      using sceneImage_defined [of "script ! i" e i] by simp
    moreover have "fst (sceneImage e i (script ! i)) = Inr (images ! i)"
      using al that by blast
    ultimately have "Inr (images ! i)
        = (Inr (if imageCallFailed (sceneCall e i (script ! i)) then JStr FAILED_URL
                else resolvedReference (sceneCall e i (script ! i))) :: message + jsval)"
      by simp
    then show ?thesis by (simp only: sum.inject)
  qed
  have gen: "images ! i = JStr GENERATED_URL"
    if "i < length script" and "sceneCall e i (script ! i) = Inr res" and "ok res"
      and "jsonBody res = Inr (JObj kvs)" and "map_of kvs ''imageUrl'' = None" for i res kvs
    using each [OF that(1)] that(2-5)
    by (simp add: imageCallFailed_def resolvedReference_def)
  have one: "images ! j = JStr FAILED_URL
               \<and> (\<forall>i < length script. i \<noteq> j \<longrightarrow>
                     images ! i = resolvedReference (sceneCall e i (script ! i)))"
    if "j < length script"
      and "\<forall>i < length script. imageCallFailed (sceneCall e i (script ! i)) \<longleftrightarrow> i = j" for j
    using each that by simp
  show ?thesis
    using rep len each gen one by blast
qed

theorem C7_witness:
  "reply (handler exampleEnv (Some \<lparr>count = 10, lastReset = ''2024-05-01''\<rparr>) (post requestText))
     = Some \<lparr>statusCode = 200,
             respBody = ResultBody exampleScript
               [JStr ''https://img.example/scene.png'', JStr FAILED_URL,
                JStr ''https://img.example/scene.png'']\<rparr>
   \<and> \<not> imageCallFailed (sceneCall exampleEnv 0 (exampleScript ! 0))
   \<and> imageCallFailed (sceneCall exampleEnv 1 (exampleScript ! 1))
   \<and> \<not> imageCallFailed (sceneCall exampleEnv 2 (exampleScript ! 2))"
proof -
  let ?g = "Some \<lparr>count = 10, lastReset = ''2024-05-01''\<rparr>"
  have h1: "httpMethod (post requestText) = ''POST''" by (simp add: post_def)
  have h2: "count (effectiveState exampleEnv ?g) < GLOBAL_DAILY_LIMIT"
    by (simp add: effectiveState_Some GLOBAL_DAILY_LIMIT_def)
  have h4: "truthy (JStr ''a robot learns to paint'')" and h5: "truthy (JNum (Finite 30))"
    by simp_all
  have h6: "fst (generateScript exampleEnv (JStr ''a robot learns to paint'') (JNum (Finite 30)))
              = Inr exampleScript"
    by (simp add: example_generateScript)
  have h7: "\<forall>scene \<in> set exampleScript. sceneCallable scene"
    by (simp add: exampleScript_def exampleScene_def sceneCallable_def promptOf_def)
  have h8: "\<forall>i < length exampleScript. i \<in> set (settleOrder exampleEnv)"
    by (auto simp: exampleScript_def exampleEnv_def less_Suc_eq)
  obtain images where
    "reply (handler exampleEnv ?g (post requestText))
       = Some \<lparr>statusCode = 200, respBody = ResultBody exampleScript images\<rparr>"
    using C7_per_scene_failure_isolation
      [OF h1 h2 example_parseBody h4 h5 h6 h7 h8]
    by blast
  moreover have "\<not> imageCallFailed (sceneCall exampleEnv 0 (exampleScript ! 0))"
    and "imageCallFailed (sceneCall exampleEnv 1 (exampleScript ! 1))"
    and "\<not> imageCallFailed (sceneCall exampleEnv 2 (exampleScript ! 2))"
    by (simp_all add: imageCallFailed_def sceneCall_def promptOf_def exampleEnv_def
          okResponse_def exampleScript_def exampleScene_def)
  ultimately show ?thesis
    by (simp add: example_handler)
qed

section \<open>The failures of generateScript\<close>

text \<open>
  Claim C8, as stated: generateScript fails with the malformed-response error exactly
  when the payload has no \<open>script\<close> field or that field is not a sequence of
  Scene-shaped records. It fails: only \<open>Array.isArray\<close> is tested (line 114), so the
  answer \<open>{"script":[1]}\<close> is returned as a script although its element is no scene.
\<close>

theorem C8_counterexample:
  "generateScript numbersEnv (JStr ''a robot learns to paint'') (JNum (Finite 30))
     = (Inr [JNum (Finite 1)], [GeminiCall])
   \<and> \<not> list_all isSceneShaped [JNum (Finite 1)]"
  by (simp add: generateScript_def buildPrompt_def interpolate_def afterFetch_def
        extractScript_def bindE_def numbersEnv_def example_defs okResponse_def
        geminiPayload_def isSceneShaped_def)

text \<open>
  Claim C8, amended. When \<open>duration\<close> or \<open>idea\<close> does not convert to a string (never so
  for a string and a number), generateScript fails with a TypeError and sends nothing.
  Otherwise it sends exactly one request to Gemini and nothing is retried:
  \<^item> a transport failure of that request is the failure of generateScript;
  \<^item> on a status that is not a success it fails: with the upstream error once the error
    body is read, with the error of reading it otherwise;
  \<^item> on a success whose body is not JSON it fails with that error;
  \<^item> on a success with a JSON body it fails with the malformed-response error exactly
    when the candidate text cannot be reached or parsed, or its \<open>script\<close> is missing or
    not an array, and otherwise returns that array as it is, its elements unchecked.
  The handler, calling generateScript once, sends one request to Gemini at most.
\<close>

theorem C8_generateScript_failures:
  "(\<not> (stringifiable duration \<and> stringifiable idea) \<longrightarrow>
      generateScript e idea duration = (Inl TypeErrorText, []))
   \<and> (stringifiable duration \<and> stringifiable idea \<longrightarrow>
        snd (generateScript e idea duration) = [GeminiCall]
        \<and> (\<forall>err. fetchGemini e idea duration = Inl err \<longrightarrow>
              fst (generateScript e idea duration) = Inl err)
        \<and> (\<forall>response. fetchGemini e idea duration = Inr response \<longrightarrow>
              (\<not> ok response \<longrightarrow>
                 (\<exists>err. fst (generateScript e idea duration) = Inl err)
                 \<and> (\<forall>errorBody. textBody response = Inr errorBody \<longrightarrow>
                       fst (generateScript e idea duration) = Inl ScriptUpstreamFailed)
                 \<and> (\<forall>err. textBody response = Inl err \<longrightarrow>
                       fst (generateScript e idea duration) = Inl err))
              \<and> (ok response \<longrightarrow>
                   (\<forall>err. jsonBody response = Inl err \<longrightarrow>
                      fst (generateScript e idea duration) = Inl err)
                   \<and> (\<forall>data. jsonBody response = Inr data \<longrightarrow>
                         fst (generateScript e idea duration) =
                           (case parsedScript e data of
                              None \<Rightarrow> Inl ScriptBadFormat
                            | Some scenes \<Rightarrow> Inr scenes)))))
   \<and> (\<forall>g ev. length (filter (\<lambda>x. x = GeminiCall) (trace (handler e g ev))) \<le> 1)"
proof -
  have prompt: "buildPrompt idea duration = (if stringifiable duration \<and> stringifiable idea
                  then Inr () else Inl TypeErrorText)"
    by (simp add: buildPrompt_def interpolate_def bindE_def)
  have thrown: "generateScript e idea duration = (Inl TypeErrorText, [])"
    if "\<not> (stringifiable duration \<and> stringifiable idea)"
    using that by (simp add: generateScript_def prompt)
  have sent: "generateScript e idea duration = (afterFetch e (fetchGemini e idea duration), [GeminiCall])"
    if "stringifiable duration \<and> stringifiable idea"
    using that by (simp add: generateScript_def prompt)
  have transport: "afterFetch e (fetchGemini e idea duration) = Inl err"
    if "fetchGemini e idea duration = Inl err" for err
    using that by (simp add: afterFetch_def bindE_def)
  have notok: "(\<exists>err. afterFetch e (fetchGemini e idea duration) = Inl err)
       \<and> (\<forall>errorBody. textBody response = Inr errorBody \<longrightarrow>
             afterFetch e (fetchGemini e idea duration) = Inl ScriptUpstreamFailed)
       \<and> (\<forall>err. textBody response = Inl err \<longrightarrow>
             afterFetch e (fetchGemini e idea duration) = Inl err)"
    if "fetchGemini e idea duration = Inr response" and "\<not> ok response" for response
    using that by (cases "textBody response") (simp_all add: afterFetch_def bindE_def)
  have nojson: "afterFetch e (fetchGemini e idea duration) = Inl err"
    if "fetchGemini e idea duration = Inr response" and "ok response"
      and "jsonBody response = Inl err" for response err
    using that by (simp add: afterFetch_def bindE_def)
  have json: "afterFetch e (fetchGemini e idea duration) =
          (case parsedScript e data of None \<Rightarrow> Inl ScriptBadFormat | Some scenes \<Rightarrow> Inr scenes)"
    if "fetchGemini e idea duration = Inr response" and "ok response"
      and "jsonBody response = Inr data" for response data
    using extractScript_cases [of e data] that
    by (auto simp: afterFetch_def bindE_def)
  show ?thesis
  proof (cases "stringifiable duration \<and> stringifiable idea")
    case False
    then show ?thesis
      using thrown gemini_call_once by simp
  next
    case True
    have "snd (generateScript e idea duration) = [GeminiCall]"
      and "fst (generateScript e idea duration) = afterFetch e (fetchGemini e idea duration)"
      using sent [OF True] by simp_all
    then show ?thesis
      using True transport notok nojson json gemini_call_once by simp
  qed
qed

text \<open>
  The three scenes returned, a transport failure propagated, and the \<open>idea\<close> that cannot
  be written into the prompt.
\<close>

theorem C8_witness:
  "stringifiable (JNum (Finite 30)) \<and> stringifiable (JStr ''a robot learns to paint'')
   \<and> parsedScript exampleEnv (geminiPayload scriptText) = Some exampleScript
   \<and> generateScript exampleEnv (JStr ''a robot learns to paint'') (JNum (Finite 30))
       = (Inr exampleScript, [GeminiCall])
   \<and> list_all isSceneShaped exampleScript
   \<and> generateScript geminiUnreachableEnv (JStr ''a robot learns to paint'') (JNum (Finite 30))
       = (Inl (Other ''fetch failed''), [GeminiCall])
   \<and> \<not> stringifiable (JObj [(''toString'', JNum (Finite 1))])
   \<and> generateScript exampleEnv (JObj [(''toString'', JNum (Finite 1))]) (JNum (Finite 30))
       = (Inl TypeErrorText, [])"
proof -
  let ?idea = "JStr ''a robot learns to paint''" and ?duration = "JNum (Finite 30)"
  let ?bad = "JObj [(''toString'', JNum (Finite 1))]"
  have s: "stringifiable ?duration \<and> stringifiable ?idea" by simp
  have ns: "\<not> (stringifiable ?duration \<and> stringifiable ?bad)" by simp
  have h: "fetchGemini exampleEnv ?idea ?duration = Inr (okResponse (geminiPayload scriptText))"
    by (simp add: exampleEnv_def)
  have u: "fetchGemini geminiUnreachableEnv ?idea ?duration = Inl (Other ''fetch failed'')"
    by (simp add: geminiUnreachableEnv_def)
  have k: "ok (okResponse (geminiPayload scriptText))"
    and j: "jsonBody (okResponse (geminiPayload scriptText)) = Inr (geminiPayload scriptText)"
    by (simp_all add: okResponse_def)
  have p: "parsedScript exampleEnv (geminiPayload scriptText) = Some exampleScript"
    by (simp add: parsedScript_def candidateText_def bindE_def geminiPayload_def example_defs)
  have sh: "list_all isSceneShaped exampleScript"
    by (simp add: exampleScript_def exampleScene_def isSceneShaped_def)
  note ok = C8_generateScript_failures [of ?duration ?idea exampleEnv, THEN conjunct2, THEN conjunct1, rule_format, OF s]
  have "snd (generateScript exampleEnv ?idea ?duration) = [GeminiCall]"
    using ok by simp
  moreover have "fst (generateScript exampleEnv ?idea ?duration) = Inr exampleScript"
    using ok [THEN conjunct2, THEN conjunct2, rule_format, OF h, THEN conjunct2, rule_format, OF k,
             THEN conjunct2, rule_format, OF j] p
    by simp
  ultimately have a: "generateScript exampleEnv ?idea ?duration = (Inr exampleScript, [GeminiCall])"
    by (cases "generateScript exampleEnv ?idea ?duration") simp
  note down = C8_generateScript_failures [of ?duration ?idea geminiUnreachableEnv, THEN conjunct2, THEN conjunct1, rule_format, OF s]
  have "snd (generateScript geminiUnreachableEnv ?idea ?duration) = [GeminiCall]"
    using down by simp
  moreover have "fst (generateScript geminiUnreachableEnv ?idea ?duration) = Inl (Other ''fetch failed'')"
    using down [THEN conjunct2, THEN conjunct1, rule_format, OF u] .
  ultimately have b: "generateScript geminiUnreachableEnv ?idea ?duration
        = (Inl (Other ''fetch failed''), [GeminiCall])"
    by (cases "generateScript geminiUnreachableEnv ?idea ?duration") simp
  have c: "generateScript exampleEnv ?bad ?duration = (Inl TypeErrorText, [])"
    using C8_generateScript_failures [of ?duration ?bad exampleEnv, THEN conjunct1, rule_format, OF ns] .
  show ?thesis using s p a sh b c by simp
qed

end
